theory Spec2Isabelle
  imports Complex_Main "HOL-Library.Log_Nat"
begin

section \<open>Data model\<close>

text \<open>
  The toolkit validates command arguments, then talks to a futures exchange through a
  client object. The embedding keeps the Python names. Conventions:
  \<^item> A Python float (a quantity, a price) is the rational number it stands for, and every
    arithmetic operation on floats rounds its exact result to the nearest binary64 value,
    as the interpreter does. The floats of the model are finite: infinities, NaN and
    results beyond the largest binary64 value lie outside it.
  \<^item> An exception is a value of type \<open>error\<close>; a function that may raise returns
    \<open>error + 'a\<close> with \<open>Inl\<close> for the raise.
  \<^item> What the process does to the outside world is recorded, in order, in a list of
    \<open>event\<close>s that every effectful function takes and returns extended. Lines logged at
    level error are events; info lines and console prints are not traced.
  \<^item> The exchange is a parameter: whether the client can be built, what the ticker
    answers, and what the k-th order submission of the run answers.
\<close>

datatype error = ValidationError | BinanceAPIException | ZeroDivisionError | OtherException

datatype pyval = PyNone | PyBool bool | PyInt int | PyFloat rat | PyStr string

record order_request =
  req_symbol :: string
  req_side :: string
  req_type :: string
  req_timeInForce :: "string option"
  req_quantity :: rat
  req_price :: "rat option"
  req_stopPrice :: "rat option"
  req_reduceOnly :: "string option"

type_synonym order = "(string \<times> string) list"

datatype event =
    Connect
  | FetchPrice string
  | Submit order_request
  | Sleep int
  | LogError error

record exchange =
  connect :: "error option"
  symbol_ticker :: "string \<Rightarrow> error + rat"
  create_order :: "nat \<Rightarrow> order_request \<Rightarrow> error + order"

section \<open>Python floats\<close>

text \<open>
  Rounding to the nearest integer, ties to the even one, and rounding of a rational to
  binary64: 53 significant bits, the smallest exponent that of the subnormal numbers.
  \<open>exponent x\<close> is the integer \<open>e\<close> with \<open>2\<^sup>e \<le> |x| < 2\<^sup>e\<^sup>+\<^sup>1\<close>.
\<close>

definition round_half_even :: "rat \<Rightarrow> int" where
  "round_half_even x =
     (let f = \<lfloor>x\<rfloor> in
      if x - of_int f < 1 / 2 then f
      else if 1 / 2 < x - of_int f then f + 1
      else if even f then f else f + 1)"

definition pow2 :: "int \<Rightarrow> rat" where
  "pow2 e = (if 0 \<le> e then of_int (2 ^ nat e) else 1 / of_int (2 ^ nat (- e)))"

definition exponent :: "rat \<Rightarrow> int" where
  "exponent x =
     (let (a, b) = quotient_of \<bar>x\<bar>; d = bitlen a - bitlen b
      in if pow2 d \<le> \<bar>x\<bar> then d else d - 1)"

definition binary64 :: "rat \<Rightarrow> rat" where
  "binary64 x =
     (if x = 0 then 0
      else let e = max (exponent x - 52) (- 1074)
           in of_int (round_half_even (x / pow2 e)) * pow2 e)"

text \<open>
  \<open>binary64\<close> rounds with exponents unbounded above. In Python an operation whose rounded
  result reaches \<open>2\<^sup>1\<^sup>0\<^sup>2\<^sup>4\<close> in absolute value overflows: an arithmetic operation then gives
  an infinity, and the conversion of such an \<^verbatim>\<open>int\<close> raises OverflowError. \<open>overflows x\<close>
  says so of the operation with exact result \<open>x\<close>. The model has no infinity: what it
  computes from the result of an operation that overflows is not what the program
  computes, and the theorems on computed values are stated under bounds for which no
  operation overflows.
\<close>

definition overflows :: "rat \<Rightarrow> bool" where
  "overflows x \<longleftrightarrow> 2 ^ 1024 \<le> \<bar>binary64 x\<bar>"

text \<open>
  The operators \<^verbatim>\<open>+\<close>, \<^verbatim>\<open>-\<close>, \<^verbatim>\<open>*\<close>, \<^verbatim>\<open>/\<close> on floats, and the conversion of an \<^verbatim>\<open>int\<close>
  operand to float. A zero divisor raises ZeroDivisionError; the callers test for it
  before they divide.
\<close>

definition fadd :: "rat \<Rightarrow> rat \<Rightarrow> rat" where
  "fadd a b = binary64 (a + b)"

definition fsub :: "rat \<Rightarrow> rat \<Rightarrow> rat" where
  "fsub a b = binary64 (a - b)"

definition fmul :: "rat \<Rightarrow> rat \<Rightarrow> rat" where
  "fmul a b = binary64 (a * b)"

definition fdiv :: "rat \<Rightarrow> rat \<Rightarrow> rat" where
  "fdiv a b = binary64 (a / b)"

definition float_of_int :: "int \<Rightarrow> rat" where
  "float_of_int i = binary64 (of_int i)"

section \<open>validators.py\<close>

text \<open>
  \<^verbatim>\<open>str.upper()\<close>. A string of the model is a sequence of code points below 256. The
  letters a to z and the accented letters from code point 224 to 254, the division sign
  247 apart, move down by 32; the sharp s, 223, becomes \<^verbatim>\<open>SS\<close>. The capitals of the micro
  sign, 181, and of y with diaeresis, 255, lie beyond code point 255 and are no ASCII
  letters: the model leaves these two characters as they are, which no test of the
  validators below can tell from their capitals.
\<close>

definition upper_char :: "char \<Rightarrow> string" where
  "upper_char c =
     (if (97::nat) \<le> of_char c \<and> of_char c \<le> (122::nat)
      then [char_of (of_char c - (32::nat))]
      else if of_char c = (223::nat) then ''SS''
      else if (224::nat) \<le> of_char c \<and> of_char c \<le> (254::nat) \<and> of_char c \<noteq> (247::nat)
      then [char_of (of_char c - (32::nat))]
      else [c])"

definition upper :: "string \<Rightarrow> string" where
  "upper s = concat (map upper_char s)"

definition is_upper_alnum :: "char \<Rightarrow> bool" where
  "is_upper_alnum c =
     (((65::nat) \<le> of_char c \<and> of_char c \<le> (90::nat)) \<or>
      ((48::nat) \<le> of_char c \<and> of_char c \<le> (57::nat)))"

text \<open>
  \<^verbatim>\<open>re.match(r'^[A-Z0-9]+$', symbol)\<close>: in Python \<^verbatim>\<open>$\<close> also matches just before a
  newline that ends the string.
\<close>

definition re_match_symbol :: "string \<Rightarrow> bool" where
  "re_match_symbol s =
     (let t = (if s \<noteq> [] \<and> last s = CHR 0x0A then butlast s else s)
      in t \<noteq> [] \<and> list_all is_upper_alnum t)"

definition endswith :: "string \<Rightarrow> string \<Rightarrow> bool" where
  "endswith s suffix =
     (length suffix \<le> length s \<and> drop (length s - length suffix) s = suffix)"

definition validate_symbol :: "string \<Rightarrow> error + string" where
  "validate_symbol symbol =
     (if symbol = [] then Inl ValidationError
      else let symbol = upper symbol in
        if \<not> re_match_symbol symbol then Inl ValidationError
        else if \<not> endswith symbol ''USDT'' then Inl ValidationError
        else Inr symbol)"

definition validate_side :: "string \<Rightarrow> error + string" where
  "validate_side side =
     (if side = [] then Inl ValidationError
      else let side = upper side in
        if side \<notin> set [''BUY'', ''SELL''] then Inl ValidationError
        else Inr side)"

text \<open>
  The numeric validators first convert with the builtins \<^verbatim>\<open>float\<close> and \<^verbatim>\<open>int\<close>. Their
  argument here is the outcome of that conversion: \<open>None\<close> when the builtin raises
  ValueError or TypeError.
\<close>

definition validate_quantity :: "rat option \<Rightarrow> error + rat" where
  "validate_quantity quantity =
     (case quantity of
        None \<Rightarrow> Inl ValidationError
      | Some qty \<Rightarrow> if qty \<le> 0 then Inl ValidationError else Inr qty)"

definition validate_price :: "rat option \<Rightarrow> error + rat" where
  "validate_price price =
     (case price of
        None \<Rightarrow> Inl ValidationError
      | Some price_val \<Rightarrow> if price_val \<le> 0 then Inl ValidationError else Inr price_val)"

definition validate_stop_limit_prices :: "rat \<Rightarrow> rat \<Rightarrow> pyval \<Rightarrow> error + unit" where
  "validate_stop_limit_prices stop_price limit_price side =
     (if side = PyStr ''BUY'' then
        (if stop_price < limit_price then Inl ValidationError else Inr ())
      else
        (if stop_price > limit_price then Inl ValidationError else Inr ()))"

definition validate_positive_integer :: "int option \<Rightarrow> error + int" where
  "validate_positive_integer v =
     (case v of
        None \<Rightarrow> Inl ValidationError
      | Some int_val \<Rightarrow> if int_val \<le> 0 then Inl ValidationError else Inr int_val)"

section \<open>client.py and the exchange calls\<close>

fun is_Submit :: "event \<Rightarrow> bool" where
  "is_Submit (Submit req) = True"
| "is_Submit e = False"

text \<open>How many order submissions the run has made so far.\<close>

definition submissions :: "event list \<Rightarrow> nat" where
  "submissions w = length (filter is_Submit w)"

text \<open>
  \<^verbatim>\<open>get_binance_client\<close> logs whatever stops it (missing credentials, a failed ping)
  once and raises it again.
\<close>

definition get_binance_client :: "exchange \<Rightarrow> event list \<Rightarrow> (error + unit) \<times> event list" where
  "get_binance_client ex w =
     (case connect ex of
        None \<Rightarrow> (Inr (), w @ [Connect])
      | Some e \<Rightarrow> (Inl e, w @ [Connect, LogError e]))"

definition futures_symbol_ticker :: "exchange \<Rightarrow> string \<Rightarrow> event list \<Rightarrow> (error + rat) \<times> event list" where
  "futures_symbol_ticker ex symbol w = (symbol_ticker ex symbol, w @ [FetchPrice symbol])"

definition futures_create_order ::
  "exchange \<Rightarrow> order_request \<Rightarrow> event list \<Rightarrow> (error + order) \<times> event list" where
  "futures_create_order ex req w = (create_order ex (submissions w) req, w @ [Submit req])"

section \<open>advanced/grid_strategy.py\<close>

record grid_result =
  buy_orders :: "order list"
  sell_orders :: "order list"
  grid_prices :: "rat list"
  current_price :: rat

text \<open>The keyword arguments of the two \<^verbatim>\<open>futures_create_order\<close> calls of the grid loop.\<close>

definition limit_order :: "string \<Rightarrow> string \<Rightarrow> rat \<Rightarrow> rat \<Rightarrow> order_request" where
  "limit_order symbol side quantity price =
     \<lparr>req_symbol = symbol, req_side = side, req_type = ''LIMIT'',
      req_timeInForce = Some ''GTC'', req_quantity = quantity, req_price = Some price,
      req_stopPrice = None, req_reduceOnly = None\<rparr>"

text \<open>
  The loop over the grid levels. The handler inside the loop catches
  \<^verbatim>\<open>BinanceAPIException\<close> only: it logs the error and goes on with the next level. Any
  other exception leaves the loop.
\<close>

fun place_grid_orders ::
  "exchange \<Rightarrow> string \<Rightarrow> rat \<Rightarrow> rat \<Rightarrow> rat list \<Rightarrow> order list \<Rightarrow> order list \<Rightarrow> event list
     \<Rightarrow> (error + order list \<times> order list) \<times> event list" where
  "place_grid_orders ex symbol quantity_per_grid cur [] buys sells w = (Inr (buys, sells), w)"
| "place_grid_orders ex symbol quantity_per_grid cur (price # rest) buys sells w =
     (if price < cur then
        (case futures_create_order ex (limit_order symbol ''BUY'' quantity_per_grid price) w of
           (Inr order, w') \<Rightarrow>
             place_grid_orders ex symbol quantity_per_grid cur rest (buys @ [order]) sells w'
         | (Inl e, w') \<Rightarrow>
             if e = BinanceAPIException
             then place_grid_orders ex symbol quantity_per_grid cur rest buys sells
                    (w' @ [LogError e])
             else (Inl e, w'))
      else if price > cur then
        (case futures_create_order ex (limit_order symbol ''SELL'' quantity_per_grid price) w of
           (Inr order, w') \<Rightarrow>
             place_grid_orders ex symbol quantity_per_grid cur rest buys (sells @ [order]) w'
         | (Inl e, w') \<Rightarrow>
             if e = BinanceAPIException
             then place_grid_orders ex symbol quantity_per_grid cur rest buys sells
                    (w' @ [LogError e])
             else (Inl e, w'))
      else place_grid_orders ex symbol quantity_per_grid cur rest buys sells w)"

text \<open>The body of the outer \<^verbatim>\<open>try\<close>: client, ticker, loop, result.\<close>

definition grid_try ::
  "exchange \<Rightarrow> string \<Rightarrow> rat \<Rightarrow> rat list \<Rightarrow> (error + grid_result) \<times> event list" where
  "grid_try ex symbol quantity_per_grid prices =
     (case get_binance_client ex [] of
        (Inl e, w) \<Rightarrow> (Inl e, w)
      | (Inr client, w) \<Rightarrow>
     (case futures_symbol_ticker ex symbol w of
        (Inl e, w) \<Rightarrow> (Inl e, w)
      | (Inr cur, w) \<Rightarrow>
     (case place_grid_orders ex symbol quantity_per_grid cur prices [] [] w of
        (Inl e, w) \<Rightarrow> (Inl e, w)
      | (Inr (buys, sells), w) \<Rightarrow>
          (Inr \<lparr>buy_orders = buys, sell_orders = sells, grid_prices = prices,
                current_price = cur\<rparr>, w))))"

text \<open>Lines 49 and 50: the step and the levels.\<close>

definition price_step :: "rat \<Rightarrow> rat \<Rightarrow> int \<Rightarrow> rat" where
  "price_step lower_price upper_price num_grids =
     fdiv (fsub upper_price lower_price) (float_of_int (num_grids - 1))"

definition grid_levels :: "rat \<Rightarrow> rat \<Rightarrow> int \<Rightarrow> rat list" where
  "grid_levels lower_price upper_price num_grids =
     map (\<lambda>i. fadd lower_price
                (fmul (float_of_int (int i)) (price_step lower_price upper_price num_grids)))
       [0..<nat num_grids]"

text \<open>
  The step is computed before the \<^verbatim>\<open>try\<close>: dividing by \<^verbatim>\<open>num_grids - 1\<close> raises
  ZeroDivisionError when that is zero, and no handler of the function sees it. Both outer
  handlers log the error, log the failed order, and raise the error again.
\<close>

definition setup_grid_strategy ::
  "exchange \<Rightarrow> string \<Rightarrow> rat option \<Rightarrow> rat option \<Rightarrow> rat option \<Rightarrow> int option
     \<Rightarrow> (error + grid_result) \<times> event list" where
  "setup_grid_strategy ex symbol quantity_per_grid lower_price upper_price num_grids =
     (case validate_symbol symbol of Inl e \<Rightarrow> (Inl e, []) | Inr symbol \<Rightarrow>
     (case validate_quantity quantity_per_grid of Inl e \<Rightarrow> (Inl e, []) | Inr quantity_per_grid \<Rightarrow>
     (case validate_price lower_price of Inl e \<Rightarrow> (Inl e, []) | Inr lower_price \<Rightarrow>
     (case validate_price upper_price of Inl e \<Rightarrow> (Inl e, []) | Inr upper_price \<Rightarrow>
     (case validate_positive_integer num_grids of Inl e \<Rightarrow> (Inl e, []) | Inr num_grids \<Rightarrow>
        if upper_price \<le> lower_price then (Inl ValidationError, [])
        else if num_grids - 1 = 0 then (Inl ZeroDivisionError, [])
        else
          (case grid_try ex symbol quantity_per_grid
                  (grid_levels lower_price upper_price num_grids) of
             (Inr result, w) \<Rightarrow> (Inr result, w)
           | (Inl e, w) \<Rightarrow> (Inl e, w @ [LogError e, LogError e])))))))"

section \<open>advanced/twap.py\<close>

text \<open>Line 47: the quantity of one slice.\<close>

definition quantity_per_order :: "rat \<Rightarrow> int \<Rightarrow> rat" where
  "quantity_per_order total_quantity num_orders = fdiv total_quantity (float_of_int num_orders)"

definition market_order :: "string \<Rightarrow> string \<Rightarrow> rat \<Rightarrow> order_request" where
  "market_order symbol side quantity =
     \<lparr>req_symbol = symbol, req_side = side, req_type = ''MARKET'',
      req_timeInForce = None, req_quantity = quantity, req_price = None,
      req_stopPrice = None, req_reduceOnly = None\<rparr>"

text \<open>
  The loop over \<^verbatim>\<open>range(num_orders)\<close>, given the indices still to run. The sleep is the
  last statement of the inner \<^verbatim>\<open>try\<close>, after the submission.
\<close>

fun twap_orders ::
  "exchange \<Rightarrow> string \<Rightarrow> string \<Rightarrow> rat \<Rightarrow> int \<Rightarrow> int \<Rightarrow> nat list \<Rightarrow> order list \<Rightarrow> event list
     \<Rightarrow> (error + order list) \<times> event list" where
  "twap_orders ex symbol side qty num_orders interval_seconds [] executed w =
     (Inr executed, w)"
| "twap_orders ex symbol side qty num_orders interval_seconds (i # rest) executed w =
     (case futures_create_order ex (market_order symbol side qty) w of
        (Inr order, w') \<Rightarrow>
          twap_orders ex symbol side qty num_orders interval_seconds rest
            (executed @ [order])
            (if int i < num_orders - 1 then w' @ [Sleep interval_seconds] else w')
      | (Inl e, w') \<Rightarrow>
          if e = BinanceAPIException
          then twap_orders ex symbol side qty num_orders interval_seconds rest
                 executed (w' @ [LogError e])
          else (Inl e, w'))"

definition twap_try ::
  "exchange \<Rightarrow> string \<Rightarrow> string \<Rightarrow> rat \<Rightarrow> int \<Rightarrow> int \<Rightarrow> (error + order list) \<times> event list" where
  "twap_try ex symbol side qty num_orders interval_seconds =
     (case get_binance_client ex [] of
        (Inl e, w) \<Rightarrow> (Inl e, w)
      | (Inr client, w) \<Rightarrow>
          twap_orders ex symbol side qty num_orders interval_seconds
            [0..<nat num_orders] [] w)"

definition execute_twap ::
  "exchange \<Rightarrow> string \<Rightarrow> string \<Rightarrow> rat option \<Rightarrow> int option \<Rightarrow> int option
     \<Rightarrow> (error + order list) \<times> event list" where
  "execute_twap ex symbol side total_quantity num_orders interval_seconds =
     (case validate_symbol symbol of Inl e \<Rightarrow> (Inl e, []) | Inr symbol \<Rightarrow>
     (case validate_side side of Inl e \<Rightarrow> (Inl e, []) | Inr side \<Rightarrow>
     (case validate_quantity total_quantity of Inl e \<Rightarrow> (Inl e, []) | Inr total_quantity \<Rightarrow>
     (case validate_positive_integer num_orders of Inl e \<Rightarrow> (Inl e, []) | Inr num_orders \<Rightarrow>
     (case validate_positive_integer interval_seconds of Inl e \<Rightarrow> (Inl e, [])
      | Inr interval_seconds \<Rightarrow>
        (case twap_try ex symbol side (quantity_per_order total_quantity num_orders) num_orders
                interval_seconds of
           (Inr executed, w) \<Rightarrow> (Inr executed, w)
         | (Inl e, w) \<Rightarrow> (Inl e, w @ [LogError e, LogError e])))))))"

section \<open>advanced/oco.py\<close>

record oco_result =
  take_profit :: order
  stop_loss :: order

definition take_profit_order :: "string \<Rightarrow> string \<Rightarrow> rat \<Rightarrow> rat \<Rightarrow> order_request" where
  "take_profit_order symbol close_side quantity price =
     \<lparr>req_symbol = symbol, req_side = close_side, req_type = ''TAKE_PROFIT'',
      req_timeInForce = Some ''GTC'', req_quantity = quantity, req_price = Some price,
      req_stopPrice = Some price, req_reduceOnly = Some ''true''\<rparr>"

definition stop_loss_order :: "string \<Rightarrow> string \<Rightarrow> rat \<Rightarrow> rat \<Rightarrow> rat \<Rightarrow> order_request" where
  "stop_loss_order symbol close_side quantity stop_limit_price stop_price =
     \<lparr>req_symbol = symbol, req_side = close_side, req_type = ''STOP'',
      req_timeInForce = Some ''GTC'', req_quantity = quantity,
      req_price = Some stop_limit_price, req_stopPrice = Some stop_price,
      req_reduceOnly = Some ''true''\<rparr>"

definition oco_try ::
  "exchange \<Rightarrow> string \<Rightarrow> string \<Rightarrow> rat \<Rightarrow> rat \<Rightarrow> rat \<Rightarrow> rat \<Rightarrow> (error + oco_result) \<times> event list" where
  "oco_try ex symbol side quantity price stop_price stop_limit_price =
     (case get_binance_client ex [] of
        (Inl e, w) \<Rightarrow> (Inl e, w)
      | (Inr client, w) \<Rightarrow>
        let close_side = (if side = ''BUY'' then ''SELL'' else ''BUY'') in
        (case futures_create_order ex (take_profit_order symbol close_side quantity price) w of
           (Inl e, w) \<Rightarrow> (Inl e, w)
         | (Inr tp, w) \<Rightarrow>
        (case futures_create_order ex
                (stop_loss_order symbol close_side quantity stop_limit_price stop_price) w of
           (Inl e, w) \<Rightarrow> (Inl e, w)
         | (Inr sl, w) \<Rightarrow> (Inr \<lparr>take_profit = tp, stop_loss = sl\<rparr>, w))))"

definition place_oco_order ::
  "exchange \<Rightarrow> string \<Rightarrow> string \<Rightarrow> rat option \<Rightarrow> rat option \<Rightarrow> rat option \<Rightarrow> rat option
     \<Rightarrow> (error + oco_result) \<times> event list" where
  "place_oco_order ex symbol side quantity price stop_price stop_limit_price =
     (case validate_symbol symbol of Inl e \<Rightarrow> (Inl e, []) | Inr symbol \<Rightarrow>
     (case validate_side side of Inl e \<Rightarrow> (Inl e, []) | Inr side \<Rightarrow>
     (case validate_quantity quantity of Inl e \<Rightarrow> (Inl e, []) | Inr quantity \<Rightarrow>
     (case validate_price price of Inl e \<Rightarrow> (Inl e, []) | Inr price \<Rightarrow>
     (case validate_price stop_price of Inl e \<Rightarrow> (Inl e, []) | Inr stop_price \<Rightarrow>
     (case validate_price stop_limit_price of Inl e \<Rightarrow> (Inl e, []) | Inr stop_limit_price \<Rightarrow>
        (case oco_try ex symbol side quantity price stop_price stop_limit_price of
           (Inr result, w) \<Rightarrow> (Inr result, w)
         | (Inl e, w) \<Rightarrow> (Inl e, w @ [LogError e, LogError e]))))))))"

section \<open>Describing a run\<close>

text \<open>
  The definitions of this section are not code of the program: they say, for a given
  exchange, what a run is expected to submit and to get back, so that the theorems can
  state what the loops do.

  A response is tolerated when the loop goes on after it: a returned order, or the one
  exception the handler inside the loop catches.
\<close>
fun tolerated :: "error + order \<Rightarrow> bool" where
  "tolerated (Inl e) = (e = BinanceAPIException)"
| "tolerated (Inr order) = True"

fun outcomes :: "exchange \<Rightarrow> nat \<Rightarrow> order_request list \<Rightarrow> (order_request \<times> (error + order)) list" where
  "outcomes ex k [] = []"
| "outcomes ex k (req # reqs) = (req, create_order ex k req) # outcomes ex (Suc k) reqs"

fun successes :: "(order_request \<times> (error + order)) list \<Rightarrow> order list" where
  "successes [] = []"
| "successes ((req, Inr order) # rest) = order # successes rest"
| "successes ((req, Inl e) # rest) = successes rest"

definition placed :: "string \<Rightarrow> (order_request \<times> (error + order)) list \<Rightarrow> order list" where
  "placed side outs = successes (filter (\<lambda>out. req_side (fst out) = side) outs)"

fun outcome_events :: "(order_request \<times> (error + order)) list \<Rightarrow> event list" where
  "outcome_events [] = []"
| "outcome_events ((req, Inr order) # rest) = Submit req # outcome_events rest"
| "outcome_events ((req, Inl e) # rest) = Submit req # LogError e # outcome_events rest"

fun submitted :: "event list \<Rightarrow> order_request list" where
  "submitted [] = []"
| "submitted (Submit req # w) = req # submitted w"
| "submitted (e # w) = submitted w"

definition grid_request :: "string \<Rightarrow> rat \<Rightarrow> rat \<Rightarrow> rat \<Rightarrow> order_request" where
  "grid_request symbol quantity_per_grid cur price =
     limit_order symbol (if price < cur then ''BUY'' else ''SELL'') quantity_per_grid price"

definition grid_requests :: "string \<Rightarrow> rat \<Rightarrow> rat \<Rightarrow> rat list \<Rightarrow> order_request list" where
  "grid_requests symbol quantity_per_grid cur prices =
     map (grid_request symbol quantity_per_grid cur) (filter (\<lambda>price. price \<noteq> cur) prices)"

definition slice_events :: "exchange \<Rightarrow> order_request \<Rightarrow> int \<Rightarrow> int \<Rightarrow> nat \<Rightarrow> event list" where
  "slice_events ex req num_orders interval_seconds i =
     (case create_order ex i req of
        Inr order \<Rightarrow>
          if int i < num_orders - 1 then [Submit req, Sleep interval_seconds] else [Submit req]
      | Inl e \<Rightarrow> [Submit req, LogError e])"

text \<open>Sample exchanges for concrete runs: the ticker answers 45000, and the k-th submission
  raises the scripted error, if there is one, and returns an order otherwise.\<close>

definition scripted :: "(nat \<Rightarrow> error option) \<Rightarrow> exchange" where
  "scripted errs =
     \<lparr>connect = None,
      symbol_ticker = (\<lambda>symbol. Inr 45000),
      create_order = (\<lambda>k req. case errs k of
                        Some e \<Rightarrow> Inl e
                      | None \<Rightarrow> Inr [(''side'', req_side req)])\<rparr>"

definition rejecting_second_order :: exchange where
  "rejecting_second_order = scripted [1 \<mapsto> BinanceAPIException]"

definition rejecting_first_order :: exchange where
  "rejecting_first_order = scripted [0 \<mapsto> BinanceAPIException]"

definition failing_first_order :: exchange where
  "failing_first_order = scripted [0 \<mapsto> OtherException]"

section \<open>The loops, step by step\<close>

lemma submissions_Nil [simp]: "submissions [] = 0"
  by (simp add: submissions_def)

lemma submissions_Cons [simp]:
  "submissions (x # w) = (if is_Submit x then Suc (submissions w) else submissions w)"
  by (simp add: submissions_def)

lemma submissions_append [simp]: "submissions (w @ v) = submissions w + submissions v"
  by (simp add: submissions_def)

lemma submitted_append [simp]: "submitted (w @ v) = submitted w @ submitted v"
  by (induction w rule: submitted.induct) simp_all

lemma submitted_outcome_events [simp]: "submitted (outcome_events outs) = map fst outs"
  by (induction outs rule: outcome_events.induct) simp_all

lemma map_fst_outcomes [simp]: "map fst (outcomes ex k reqs) = reqs"
  by (induction reqs arbitrary: k) simp_all

lemma length_outcomes [simp]: "length (outcomes ex k reqs) = length reqs"
  by (induction reqs arbitrary: k) simp_all

lemma nth_outcomes:
  "j < length reqs \<Longrightarrow> outcomes ex k reqs ! j = (reqs ! j, create_order ex (k + j) (reqs ! j))"
proof (induction reqs arbitrary: k j)
  case Nil
  then show ?case by simp
next
  case (Cons req reqs)
  then show ?case by (cases j) simp_all
qed

lemma limit_order_side [simp]: "req_side (limit_order symbol side q price) = side"
  by (simp add: limit_order_def)

lemma placed_Nil [simp]: "placed side [] = []"
  by (simp add: placed_def)

lemma placed_Cons_Inr [simp]:
  "placed side ((req, Inr order) # rest) =
     (if req_side req = side then order # placed side rest else placed side rest)"
  by (simp add: placed_def)

lemma placed_Cons_Inl [simp]: "placed side ((req, Inl e) # rest) = placed side rest"
  by (simp add: placed_def)

lemma grid_requests_Nil [simp]: "grid_requests symbol q cur [] = []"
  by (simp add: grid_requests_def)

lemma grid_requests_Cons [simp]:
  "grid_requests symbol q cur (price # rest) =
     (if price = cur then grid_requests symbol q cur rest
      else grid_request symbol q cur price # grid_requests symbol q cur rest)"
  by (simp add: grid_requests_def)

lemma grid_request_side [simp]:
  "req_side (grid_request symbol q cur price) = (if price < cur then ''BUY'' else ''SELL'')"
  by (simp add: grid_request_def limit_order_def)

lemma place_grid_orders_skip:
  "place_grid_orders ex symbol q cur (cur # rest) buys sells w =
     place_grid_orders ex symbol q cur rest buys sells w"
  by simp

lemma place_grid_orders_step:
  "price \<noteq> cur \<Longrightarrow>
   place_grid_orders ex symbol q cur (price # rest) buys sells w =
     (case create_order ex (submissions w) (grid_request symbol q cur price) of
        Inr order \<Rightarrow>
          place_grid_orders ex symbol q cur rest
            (if price < cur then buys @ [order] else buys)
            (if price < cur then sells else sells @ [order])
            (w @ [Submit (grid_request symbol q cur price)])
      | Inl e \<Rightarrow>
          if e = BinanceAPIException
          then place_grid_orders ex symbol q cur rest buys sells
                 (w @ [Submit (grid_request symbol q cur price), LogError e])
          else (Inl e, w @ [Submit (grid_request symbol q cur price)]))"
  by (simp add: futures_create_order_def grid_request_def split: sum.splits)

lemma place_grid_orders_run:
  "list_all (\<lambda>out. tolerated (snd out))
      (outcomes ex (submissions w) (grid_requests symbol q cur prices)) \<Longrightarrow>
   place_grid_orders ex symbol q cur prices buys sells w =
     (Inr (buys @ placed ''BUY'' (outcomes ex (submissions w) (grid_requests symbol q cur prices)),
           sells @ placed ''SELL'' (outcomes ex (submissions w) (grid_requests symbol q cur prices))),
      w @ outcome_events (outcomes ex (submissions w) (grid_requests symbol q cur prices)))"
proof (induction prices arbitrary: buys sells w)
  case Nil
  then show ?case by simp
next
  case (Cons price rest)
  show ?case
  proof (cases "price = cur")
    case True
    with Cons show ?thesis by simp
  next
    case False
    let ?req = "grid_request symbol q cur price"
    show ?thesis
    proof (cases "create_order ex (submissions w) ?req")
      case (Inl e)
      with Cons.prems False have e: "e = BinanceAPIException" by simp
      from Cons.prems False
      have "list_all (\<lambda>out. tolerated (snd out))
              (outcomes ex (submissions (w @ [Submit ?req, LogError e]))
                 (grid_requests symbol q cur rest))"
        by simp
      from Cons.IH [OF this, of buys sells] show ?thesis
        by (simp add: place_grid_orders_step [OF False] Inl e False
              del: place_grid_orders.simps)
    next
      case (Inr order)
      from Cons.prems False
      have "list_all (\<lambda>out. tolerated (snd out))
              (outcomes ex (submissions (w @ [Submit ?req])) (grid_requests symbol q cur rest))"
        by simp
      from Cons.IH [OF this] show ?thesis
        by (simp add: place_grid_orders_step [OF False] Inr False
              del: place_grid_orders.simps)
    qed
  qed
qed

lemma place_grid_orders_abort:
  "dropWhile (\<lambda>out. tolerated (snd out))
      (outcomes ex (submissions w) (grid_requests symbol q cur prices)) = (req, res) # others \<Longrightarrow>
   place_grid_orders ex symbol q cur prices buys sells w =
     (Inl (projl res),
      w @ outcome_events (takeWhile (\<lambda>out. tolerated (snd out))
            (outcomes ex (submissions w) (grid_requests symbol q cur prices))) @ [Submit req])"
proof (induction prices arbitrary: buys sells w)
  case Nil
  then show ?case by simp
next
  case (Cons price rest)
  show ?case
  proof (cases "price = cur")
    case True
    with Cons show ?thesis by simp
  next
    case False
    let ?req = "grid_request symbol q cur price"
    show ?thesis
    proof (cases "create_order ex (submissions w) ?req")
      case (Inl e)
      show ?thesis
      proof (cases "e = BinanceAPIException")
        case True
        from Cons.prems False Inl True
        have "dropWhile (\<lambda>out. tolerated (snd out))
                (outcomes ex (submissions (w @ [Submit ?req, LogError e]))
                   (grid_requests symbol q cur rest)) = (req, res) # others"
          by simp
        from Cons.IH [OF this, of buys sells] show ?thesis
          by (simp add: place_grid_orders_step [OF False] Inl True False
                del: place_grid_orders.simps)
      next
        case unexpected: False
        from Cons.prems False Inl unexpected
        have "req = ?req" and "res = Inl e"
          by simp_all
        then show ?thesis
          by (simp add: place_grid_orders_step [OF False] Inl unexpected False
                del: place_grid_orders.simps)
      qed
    next
      case (Inr order)
      from Cons.prems False Inr
      have "dropWhile (\<lambda>out. tolerated (snd out))
              (outcomes ex (submissions (w @ [Submit ?req])) (grid_requests symbol q cur rest))
            = (req, res) # others"
        by simp
      from Cons.IH [OF this] show ?thesis
        by (simp add: place_grid_orders_step [OF False] Inr False
              del: place_grid_orders.simps)
    qed
  qed
qed

lemma submissions_slice_events [simp]: "submissions (slice_events ex req n iv i) = 1"
  by (simp add: slice_events_def split: sum.splits)

lemma twap_orders_step:
  "twap_orders ex symbol side q n iv (i # rest) executed w =
     (case create_order ex (submissions w) (market_order symbol side q) of
        Inr order \<Rightarrow>
          twap_orders ex symbol side q n iv rest (executed @ [order])
            (if int i < n - 1 then w @ [Submit (market_order symbol side q), Sleep iv]
             else w @ [Submit (market_order symbol side q)])
      | Inl e \<Rightarrow>
          if e = BinanceAPIException
          then twap_orders ex symbol side q n iv rest executed
                 (w @ [Submit (market_order symbol side q), LogError e])
          else (Inl e, w @ [Submit (market_order symbol side q)]))"
  by (simp add: futures_create_order_def split: sum.splits)

lemma twap_orders_run:
  "submissions w = i \<Longrightarrow>
   \<forall>j. i \<le> j \<and> j < m \<longrightarrow> tolerated (create_order ex j (market_order symbol side q)) \<Longrightarrow>
   twap_orders ex symbol side q n iv [i..<m] executed w =
     (Inr (executed @
           successes (map (\<lambda>j. (market_order symbol side q,
                                 create_order ex j (market_order symbol side q))) [i..<m])),
      w @ concat (map (slice_events ex (market_order symbol side q) n iv) [i..<m]))"
proof (induction "m - i" arbitrary: i w executed)
  case 0
  then show ?case by simp
next
  case (Suc k)
  let ?req = "market_order symbol side q"
  from Suc.hyps have lt: "i < m" and k: "k = m - Suc i" by simp_all
  from lt have upt: "[i..<m] = i # [Suc i..<m]" by (rule upt_conv_Cons)
  from Suc.prems lt have tol: "tolerated (create_order ex i ?req)" by simp
  from Suc.prems have rest: "\<forall>j. Suc i \<le> j \<and> j < m \<longrightarrow> tolerated (create_order ex j ?req)"
    by simp
  show ?case
  proof (cases "create_order ex i ?req")
    case (Inl e)
    with tol have e: "e = BinanceAPIException" by simp
    have "submissions (w @ [Submit ?req, LogError e]) = Suc i"
      using Suc.prems(1) by simp
    from Suc.hyps(1) [OF k this rest, of executed] show ?thesis
      by (simp add: upt twap_orders_step Suc.prems(1) Inl e slice_events_def
            del: twap_orders.simps upt.simps)
  next
    case (Inr order)
    have "submissions (if int i < n - 1 then w @ [Submit ?req, Sleep iv] else w @ [Submit ?req])
            = Suc i"
      using Suc.prems(1) by simp
    from Suc.hyps(1) [OF k this rest, of "executed @ [order]"] show ?thesis
      by (simp add: upt twap_orders_step Suc.prems(1) Inr slice_events_def
            del: twap_orders.simps upt.simps)
  qed
qed

lemma twap_orders_abort:
  "submissions w = i \<Longrightarrow> i \<le> k \<Longrightarrow> k < m \<Longrightarrow>
   \<forall>j. i \<le> j \<and> j < k \<longrightarrow> tolerated (create_order ex j (market_order symbol side q)) \<Longrightarrow>
   create_order ex k (market_order symbol side q) = Inl e \<Longrightarrow> e \<noteq> BinanceAPIException \<Longrightarrow>
   twap_orders ex symbol side q n iv [i..<m] executed w =
     (Inl e,
      w @ concat (map (slice_events ex (market_order symbol side q) n iv) [i..<k])
        @ [Submit (market_order symbol side q)])"
proof (induction "k - i" arbitrary: i w executed)
  case 0
  then have "i = k" by simp
  from 0 have upt: "[k..<m] = k # [Suc k..<m]" by (simp add: upt_conv_Cons)
  from 0 \<open>i = k\<close> show ?case
    by (simp add: upt twap_orders_step del: twap_orders.simps upt.simps)
next
  case (Suc d)
  let ?req = "market_order symbol side q"
  from Suc.hyps Suc.prems have lt: "i < k" and d: "d = k - Suc i" and im: "i < m" by simp_all
  from im have upt: "[i..<m] = i # [Suc i..<m]" by (rule upt_conv_Cons)
  from lt have uptk: "[i..<k] = i # [Suc i..<k]" by (rule upt_conv_Cons)
  from Suc.prems lt have tol: "tolerated (create_order ex i ?req)" by simp
  from Suc.prems have rest: "\<forall>j. Suc i \<le> j \<and> j < k \<longrightarrow> tolerated (create_order ex j ?req)"
    by simp
  from lt have le: "Suc i \<le> k" by simp
  show ?case
  proof (cases "create_order ex i ?req")
    case (Inl e')
    with tol have e': "e' = BinanceAPIException" by simp
    have "submissions (w @ [Submit ?req, LogError e']) = Suc i"
      using Suc.prems(1) by simp
    from Suc.hyps(1) [OF d this le Suc.prems(3) rest Suc.prems(5) Suc.prems(6), of executed]
    show ?thesis
      by (simp add: upt uptk twap_orders_step Suc.prems(1) Inl e' slice_events_def
            del: twap_orders.simps upt.simps)
  next
    case (Inr order)
    have "submissions (if int i < n - 1 then w @ [Submit ?req, Sleep iv] else w @ [Submit ?req])
            = Suc i"
      using Suc.prems(1) by simp
    from Suc.hyps(1) [OF d this le Suc.prems(3) rest Suc.prems(5) Suc.prems(6),
        of "executed @ [order]"]
    show ?thesis
      by (simp add: upt uptk twap_orders_step Suc.prems(1) Inr slice_events_def
            del: twap_orders.simps upt.simps)
  qed
qed

lemma setup_grid_strategy_valid:
  assumes "validate_symbol symbol = Inr usym" "0 < q" "0 < lo" "lo < hi" "2 \<le> n"
  shows "setup_grid_strategy ex symbol (Some q) (Some lo) (Some hi) (Some n) =
           (case grid_try ex usym q (grid_levels lo hi n) of
              (Inr result, w) \<Rightarrow> (Inr result, w)
            | (Inl e, w) \<Rightarrow> (Inl e, w @ [LogError e, LogError e]))"
  using assms
  by (simp add: setup_grid_strategy_def validate_quantity_def validate_price_def
        validate_positive_integer_def)

lemma grid_try_no_client:
  "connect ex = Some e \<Longrightarrow> grid_try ex usym q prices = (Inl e, [Connect, LogError e])"
  by (simp add: grid_try_def get_binance_client_def)

lemma grid_try_no_price:
  "connect ex = None \<Longrightarrow> symbol_ticker ex usym = Inl e \<Longrightarrow>
   grid_try ex usym q prices = (Inl e, [Connect, FetchPrice usym])"
  by (simp add: grid_try_def get_binance_client_def futures_symbol_ticker_def)

lemma grid_try_run:
  assumes "connect ex = None" "symbol_ticker ex usym = Inr cur"
    and "list_all (\<lambda>out. tolerated (snd out)) (outcomes ex 0 (grid_requests usym q cur prices))"
  shows "grid_try ex usym q prices =
           (Inr \<lparr>buy_orders = placed ''BUY'' (outcomes ex 0 (grid_requests usym q cur prices)),
                 sell_orders = placed ''SELL'' (outcomes ex 0 (grid_requests usym q cur prices)),
                 grid_prices = prices, current_price = cur\<rparr>,
            [Connect, FetchPrice usym]
              @ outcome_events (outcomes ex 0 (grid_requests usym q cur prices)))"
proof -
  have "submissions [Connect, FetchPrice usym] = 0" by simp
  with assms(3)
  have "place_grid_orders ex usym q cur prices [] [] [Connect, FetchPrice usym] =
          (Inr ([] @ placed ''BUY'' (outcomes ex 0 (grid_requests usym q cur prices)),
                [] @ placed ''SELL'' (outcomes ex 0 (grid_requests usym q cur prices))),
           [Connect, FetchPrice usym]
             @ outcome_events (outcomes ex 0 (grid_requests usym q cur prices)))"
    using place_grid_orders_run [of ex "[Connect, FetchPrice usym]" usym q cur prices "[]" "[]"]
    by simp
  with assms(1,2) show ?thesis
    by (simp add: grid_try_def get_binance_client_def futures_symbol_ticker_def)
qed

lemma grid_try_abort:
  assumes "connect ex = None" "symbol_ticker ex usym = Inr cur"
    and "dropWhile (\<lambda>out. tolerated (snd out)) (outcomes ex 0 (grid_requests usym q cur prices))
           = (req, res) # others"
  shows "grid_try ex usym q prices =
           (Inl (projl res),
            [Connect, FetchPrice usym]
              @ outcome_events (takeWhile (\<lambda>out. tolerated (snd out))
                   (outcomes ex 0 (grid_requests usym q cur prices)))
              @ [Submit req])"
proof -
  have "submissions [Connect, FetchPrice usym] = 0" by simp
  with assms(3)
  have "place_grid_orders ex usym q cur prices [] [] [Connect, FetchPrice usym] =
          (Inl (projl res),
           [Connect, FetchPrice usym]
             @ outcome_events (takeWhile (\<lambda>out. tolerated (snd out))
                  (outcomes ex 0 (grid_requests usym q cur prices)))
             @ [Submit req])"
    using place_grid_orders_abort [of ex "[Connect, FetchPrice usym]" usym q cur prices req res others
            "[]" "[]"]
    by simp
  with assms(1,2) show ?thesis
    by (simp add: grid_try_def get_binance_client_def futures_symbol_ticker_def)
qed

lemma validate_symbol_BTCUSDT: "validate_symbol ''BTCUSDT'' = Inr ''BTCUSDT''"
  by (simp add: validate_symbol_def upper_def upper_char_def re_match_symbol_def
        is_upper_alnum_def endswith_def)

lemma validate_side_BUY: "validate_side ''BUY'' = Inr ''BUY''"
  by (simp add: validate_side_def upper_def upper_char_def)

lemma grid_try_Inr:
  "grid_try ex usym q prices = (Inr r, w) \<Longrightarrow> grid_prices r = prices"
  by (auto simp: grid_try_def split: prod.splits sum.splits)

lemma setup_grid_strategy_Inr:
  assumes "setup_grid_strategy ex symbol quantity lower_price upper_price num = (Inr r, w)"
  shows "\<exists>usym q lo hi n.
           validate_symbol symbol = Inr usym \<and> quantity = Some q \<and> lower_price = Some lo \<and>
           upper_price = Some hi \<and> num = Some n \<and> 0 < q \<and> 0 < lo \<and> lo < hi \<and> 2 \<le> n \<and>
           grid_try ex usym q (grid_levels lo hi n) = (Inr r, w)"
  using assms
  by (auto simp: setup_grid_strategy_def validate_quantity_def validate_price_def
        validate_positive_integer_def
      split: sum.splits option.splits if_splits prod.splits)

lemma length_grid_levels: "length (grid_levels lo hi n) = nat n"
  by (simp add: grid_levels_def)

lemma nth_grid_levels:
  "i < nat n \<Longrightarrow>
   grid_levels lo hi n ! i = fadd lo (fmul (float_of_int (int i)) (price_step lo hi n))"
  by (simp add: grid_levels_def)

lemma binary64_0 [simp]: "binary64 0 = 0"
  by (simp add: binary64_def)

lemma hd_grid_levels:
  assumes "binary64 lo = lo" and "0 < nat n"
  shows "hd (grid_levels lo hi n) = lo"
proof -
  from assms(2) have "grid_levels lo hi n \<noteq> []"
    using length_grid_levels [of lo hi n] by auto
  then have "hd (grid_levels lo hi n) = grid_levels lo hi n ! 0"
    by (rule hd_conv_nth)
  also have "\<dots> = lo"
    using assms by (simp add: nth_grid_levels fadd_def fmul_def float_of_int_def)
  finally show ?thesis .
qed

lemma last_grid_levels:
  assumes "0 < nat n"
  shows "last (grid_levels lo hi n) =
           fadd lo (fmul (float_of_int (n - 1)) (price_step lo hi n))"
proof -
  from assms have ne: "grid_levels lo hi n \<noteq> []"
    using length_grid_levels [of lo hi n] by auto
  from assms have idx: "int (nat n - 1) = n - 1" by simp
  have "last (grid_levels lo hi n) = grid_levels lo hi n ! (nat n - 1)"
    using ne by (simp add: last_conv_nth length_grid_levels)
  also have "\<dots> = fadd lo (fmul (float_of_int (int (nat n - 1))) (price_step lo hi n))"
    using assms by (simp add: nth_grid_levels)
  finally show ?thesis by (simp only: idx)
qed

lemma grid_try_Inr_run:
  assumes "grid_try ex usym q prices = (Inr r, w)"
  shows "connect ex = None \<and> symbol_ticker ex usym = Inr (current_price r) \<and>
         list_all (\<lambda>out. tolerated (snd out))
           (outcomes ex 0 (grid_requests usym q (current_price r) prices)) \<and>
         buy_orders r = placed ''BUY'' (outcomes ex 0 (grid_requests usym q (current_price r) prices)) \<and>
         sell_orders r = placed ''SELL'' (outcomes ex 0 (grid_requests usym q (current_price r) prices)) \<and>
         grid_prices r = prices \<and>
         w = [Connect, FetchPrice usym]
               @ outcome_events (outcomes ex 0 (grid_requests usym q (current_price r) prices))"
proof (cases "connect ex")
  case (Some e)
  from grid_try_no_client [OF this] assms show ?thesis by simp
next
  case None
  show ?thesis
  proof (cases "symbol_ticker ex usym")
    case (Inl e)
    from grid_try_no_price [OF None this] assms show ?thesis by simp
  next
    case (Inr cur)
    let ?outs = "outcomes ex 0 (grid_requests usym q cur prices)"
    show ?thesis
    proof (cases "dropWhile (\<lambda>out. tolerated (snd out)) ?outs")
      case Nil
      then have all: "list_all (\<lambda>out. tolerated (snd out)) ?outs"
        by (simp add: list_all_iff)
      from grid_try_run [OF None Inr all] assms
      have r: "r = \<lparr>buy_orders = placed ''BUY'' ?outs, sell_orders = placed ''SELL'' ?outs,
                     grid_prices = prices, current_price = cur\<rparr>"
        and w: "w = [Connect, FetchPrice usym] @ outcome_events ?outs"
        by simp_all
      from r have cur: "current_price r = cur" by simp
      from None Inr all r w show ?thesis
        unfolding cur by simp
    next
      case (Cons out others)
      obtain req res where "out = (req, res)" by (cases out)
      with Cons have "dropWhile (\<lambda>out. tolerated (snd out)) ?outs = (req, res) # others"
        by simp
      from grid_try_abort [OF None Inr this] assms show ?thesis by simp
    qed
  qed
qed

lemma grid_requests_by_level:
  "grid_requests usym q cur prices =
     concat (map (\<lambda>price.
        if price < cur then [limit_order usym ''BUY'' q price]
        else if price > cur then [limit_order usym ''SELL'' q price]
        else []) prices)"
  by (induction prices) (auto simp: grid_request_def)

lemma grid_run_three_levels:
  "setup_grid_strategy (scripted Map.empty) ''BTCUSDT'' (Some (1 / 2)) (Some 43000)
     (Some 47000) (Some 3) =
   (Inr \<lparr>buy_orders = [[(''side'', ''BUY'')]], sell_orders = [[(''side'', ''SELL'')]],
          grid_prices = [43000, 45000, 47000], current_price = 45000\<rparr>,
    [Connect, FetchPrice ''BTCUSDT'',
     Submit (limit_order ''BTCUSDT'' ''BUY'' (1 / 2) 43000),
     Submit (limit_order ''BTCUSDT'' ''SELL'' (1 / 2) 47000)])"
  by code_simp

lemma placed_member:
  "j < length outs \<Longrightarrow> outs ! j = (req, Inr order) \<Longrightarrow> req_side req = side \<Longrightarrow>
   order \<in> set (placed side outs)"
proof (induction outs arbitrary: j)
  case Nil
  then show ?case by simp
next
  case (Cons out outs)
  obtain req' res' where out: "out = (req', res')" by (cases out)
  show ?case
  proof (cases j)
    case 0
    with Cons.prems out show ?thesis by simp
  next
    case (Suc j')
    with Cons.prems have "order \<in> set (placed side outs)"
      by (intro Cons.IH [of j']) simp_all
    then show ?thesis
      unfolding out by (cases res') simp_all
  qed
qed

lemma grid_requests_five_levels:
  "grid_requests ''BTCUSDT'' (1 / 2) 45000 (grid_levels 43000 47000 5) =
     [limit_order ''BTCUSDT'' ''BUY'' (1 / 2) 43000,
      limit_order ''BTCUSDT'' ''BUY'' (1 / 2) 44000,
      limit_order ''BTCUSDT'' ''SELL'' (1 / 2) 46000,
      limit_order ''BTCUSDT'' ''SELL'' (1 / 2) 47000]"
  by code_simp

lemma validate_side_cases:
  "validate_side side = Inr uside \<Longrightarrow> uside = ''BUY'' \<or> uside = ''SELL''"
  by (auto simp: validate_side_def Let_def split: if_splits)


lemma validate_side_buy: "validate_side ''buy'' = Inr ''BUY''"
  by code_simp

lemma execute_twap_valid:
  assumes "validate_symbol symbol = Inr usym" and "validate_side side = Inr uside"
    and "0 < total_quantity" and "1 \<le> n" and "1 \<le> iv"
  shows "execute_twap ex symbol side (Some total_quantity) (Some n) (Some iv) =
           (case twap_try ex usym uside (quantity_per_order total_quantity n) n iv of
              (Inr executed, w) \<Rightarrow> (Inr executed, w)
            | (Inl e, w) \<Rightarrow> (Inl e, w @ [LogError e, LogError e]))"
  using assms
  by (simp add: execute_twap_def validate_quantity_def validate_positive_integer_def)

lemma twap_try_no_client:
  "connect ex = Some e \<Longrightarrow> twap_try ex usym uside q n iv = (Inl e, [Connect, LogError e])"
  by (simp add: twap_try_def get_binance_client_def)

lemma twap_try_run:
  assumes "connect ex = None"
    and "\<forall>j < nat n. tolerated (create_order ex j (market_order usym uside q))"
  shows "twap_try ex usym uside q n iv =
           (Inr (successes (map (\<lambda>j. (market_order usym uside q,
                                        create_order ex j (market_order usym uside q)))
                             [0..<nat n])),
            Connect # concat (map (slice_events ex (market_order usym uside q) n iv) [0..<nat n]))"
proof -
  have "submissions [Connect] = 0" by simp
  from twap_orders_run [OF this, of "nat n" ex usym uside q n iv "[]"] assms
  show ?thesis
    by (simp add: twap_try_def get_binance_client_def)
qed

lemma twap_try_abort:
  assumes "connect ex = None" and "k < nat n"
    and "\<forall>j < k. tolerated (create_order ex j (market_order usym uside q))"
    and "create_order ex k (market_order usym uside q) = Inl e" and "e \<noteq> BinanceAPIException"
  shows "twap_try ex usym uside q n iv =
           (Inl e,
            Connect # concat (map (slice_events ex (market_order usym uside q) n iv) [0..<k])
              @ [Submit (market_order usym uside q)])"
proof -
  have "submissions [Connect] = 0" by simp
  from twap_orders_abort [OF this _ assms(2) _ assms(4,5), of n iv "[]"] assms(1,3)
  show ?thesis
    by (simp add: twap_try_def get_binance_client_def)
qed


lemma submitted_slice_events [simp]: "submitted (slice_events ex req n iv i) = [req]"
  by (simp add: slice_events_def split: sum.splits)

lemma submitted_slices [simp]:
  "submitted (concat (map (slice_events ex req n iv) xs)) = replicate (length xs) req"
  by (induction xs) simp_all




lemma take_outcomes: "take k (outcomes ex i reqs) = outcomes ex i (take k reqs)"
proof (induction reqs arbitrary: k i)
  case Nil
  then show ?case by simp
next
  case (Cons req reqs)
  then show ?case by (cases k) simp_all
qed

lemma all_tolerated:
  assumes "\<forall>j < length reqs. tolerated (create_order ex j (reqs ! j))"
  shows "list_all (\<lambda>out. tolerated (snd out)) (outcomes ex 0 reqs)"
  using assms nth_outcomes [of _ reqs ex 0] by (simp add: list_all_length)

lemma grid_try_abort_at:
  assumes "connect ex = None" and "symbol_ticker ex usym = Inr cur"
    and "reqs = grid_requests usym q cur prices" and "k < length reqs"
    and "\<forall>j < k. tolerated (create_order ex j (reqs ! j))"
    and "create_order ex k (reqs ! k) = Inl e" and "e \<noteq> BinanceAPIException"
  shows "grid_try ex usym q prices =
           (Inl e, [Connect, FetchPrice usym] @ outcome_events (outcomes ex 0 (take k reqs))
                     @ [Submit (reqs ! k)])"
proof -
  let ?outs = "outcomes ex 0 reqs"
  let ?P = "\<lambda>out. tolerated (snd out)"
  have nth: "?outs ! j = (reqs ! j, create_order ex j (reqs ! j))" if "j < length reqs" for j
    using nth_outcomes [OF that, of ex 0] by simp
  have len: "k < length ?outs" using assms(4) by simp
  have "takeWhile ?P ?outs = take k ?outs"
  proof (rule takeWhile_eq_take_P_nth)
    fix i assume "i < k" and "i < length ?outs"
    with assms(5) nth [of i] show "?P (?outs ! i)" by simp
  next
    from nth [OF assms(4)] assms(6,7) show "\<not> ?P (?outs ! k)" by simp
  qed
  then have tw: "takeWhile ?P ?outs = outcomes ex 0 (take k reqs)"
    by (simp add: take_outcomes)
  have "dropWhile ?P ?outs = drop k ?outs"
    using \<open>takeWhile ?P ?outs = take k ?outs\<close> len
    by (simp add: dropWhile_eq_drop [of ?P ?outs])
  also have "\<dots> = ?outs ! k # drop (Suc k) ?outs"
    using len by (simp add: Cons_nth_drop_Suc)
  finally have dw: "dropWhile ?P (outcomes ex 0 (grid_requests usym q cur prices)) =
                      (reqs ! k, Inl e) # drop (Suc k) ?outs"
    using nth [OF assms(4)] assms(6) by (simp add: assms(3))
  from grid_try_abort [OF assms(1,2) dw] tw show ?thesis
    by (simp add: assms(3))
qed

lemma quantity_per_order_thirds: "quantity_per_order 3 3 = 1"
  by code_simp

lemma quantity_per_order_halves: "quantity_per_order 2 2 = 1"
  by code_simp

lemma scripted_accepts_all:
  "list_all (\<lambda>out. tolerated (snd out)) (outcomes (scripted Map.empty) k reqs)"
  by (induction reqs arbitrary: k) (simp_all add: scripted_def)

lemma grid_run_accepting:
  assumes "validate_symbol symbol = Inr usym" and "0 < q" and "0 < lo" and "lo < hi"
    and "2 \<le> n"
  shows "\<exists>r w. setup_grid_strategy (scripted Map.empty) symbol (Some q) (Some lo) (Some hi)
                 (Some n) = (Inr r, w) \<and> grid_prices r = grid_levels lo hi n"
proof -
  have "connect (scripted Map.empty) = None"
    and "symbol_ticker (scripted Map.empty) usym = Inr 45000"
    by (simp_all add: scripted_def)
  from grid_try_run [OF this scripted_accepts_all] show ?thesis
    by (simp add: setup_grid_strategy_valid [OF assms])
qed


section \<open>Rounding\<close>

text \<open>
  A float operation whose exact result \<open>x\<close> lies in the normal range is off by at most
  \<open>|x| / 2\<^sup>5\<^sup>3\<close>, and integers below \<open>2\<^sup>5\<^sup>3\<close> convert exactly.
\<close>

lemma pow2_powi: "pow2 e = 2 powi e"
  by (simp add: pow2_def power_int_def inverse_eq_divide power_one_over)

lemma pow2_pos: "0 < pow2 e"
  by (simp add: pow2_powi)

lemma pow2_nonzero [simp]: "pow2 e \<noteq> 0"
  using pow2_pos [of e] by simp

lemma pow2_add: "pow2 (a + b) = pow2 a * pow2 b"
  by (simp add: pow2_powi power_int_add)

lemma pow2_diff: "pow2 (a - b) = pow2 a / pow2 b"
  by (simp add: pow2_powi power_int_diff)

lemma pow2_nat: "pow2 (int n) = 2 ^ n"
  by (simp add: pow2_powi)

lemma pow2_mono: "a \<le> b \<Longrightarrow> pow2 a \<le> pow2 b"
  by (simp add: pow2_powi power_int_increasing)

lemma pow2_nonneg: "0 \<le> pow2 e"
  by (rule less_imp_le) (rule pow2_pos)

lemma pow2_Suc: "pow2 (e + 1) = 2 * pow2 e"
  by (simp add: pow2_powi power_int_add)

lemma exponent_bounds:
  assumes "x \<noteq> 0"
  shows "pow2 (exponent x) \<le> \<bar>x\<bar> \<and> \<bar>x\<bar> < pow2 (exponent x + 1)"
proof -
  obtain a b where q: "quotient_of \<bar>x\<bar> = (a, b)" by (cases "quotient_of \<bar>x\<bar>")
  then have b: "0 < b" and x: "\<bar>x\<bar> = of_int a / of_int b"
    by (simp_all add: quotient_of_denom_pos quotient_of_div)
  from assms have "0 < \<bar>x\<bar>" by simp
  with x b have a: "0 < a" by (simp add: zero_less_divide_iff)
  let ?d = "bitlen a - bitlen b"
  from bitlen_bounds [OF a] have a1: "2 ^ nat (bitlen a - 1) \<le> a" and a2: "a < 2 ^ nat (bitlen a)"
    by simp_all
  from bitlen_bounds [OF b] have b1: "2 ^ nat (bitlen b - 1) \<le> b" and b2: "b < 2 ^ nat (bitlen b)"
    by simp_all
  from a have la: "1 \<le> bitlen a" by (simp add: bitlen_alt_def)
  from b have lb: "1 \<le> bitlen b" by (simp add: bitlen_alt_def)
  have ra1: "pow2 (bitlen a - 1) \<le> of_int a"
  proof -
    from la have "pow2 (bitlen a - 1) = of_int (2 ^ nat (bitlen a - 1))"
      by (simp add: pow2_def)
    also have "\<dots> \<le> of_int a" using a1 by (simp only: of_int_le_iff)
    finally show ?thesis .
  qed
  have ra2: "of_int a < pow2 (bitlen a)"
  proof -
    have "(of_int a :: rat) < of_int (2 ^ nat (bitlen a))" using a2 by (simp only: of_int_less_iff)
    also from la have "\<dots> = pow2 (bitlen a)" by (simp add: pow2_def)
    finally show ?thesis .
  qed
  have rb1: "pow2 (bitlen b - 1) \<le> of_int b"
  proof -
    from lb have "pow2 (bitlen b - 1) = of_int (2 ^ nat (bitlen b - 1))"
      by (simp add: pow2_def)
    also have "\<dots> \<le> of_int b" using b1 by (simp only: of_int_le_iff)
    finally show ?thesis .
  qed
  have rb2: "of_int b < pow2 (bitlen b)"
  proof -
    have "(of_int b :: rat) < of_int (2 ^ nat (bitlen b))" using b2 by (simp only: of_int_less_iff)
    also from lb have "\<dots> = pow2 (bitlen b)" by (simp add: pow2_def)
    finally show ?thesis .
  qed
  from b have rb: "(0::rat) < of_int b" by simp
  from a have ra: "(0::rat) < of_int a" by simp
  have lower: "pow2 (?d - 1) < \<bar>x\<bar>"
  proof -
    have "pow2 (?d - 1) = pow2 (bitlen a - 1) / pow2 (bitlen b)"
      by (simp add: pow2_diff [symmetric] algebra_simps)
    also have "\<dots> \<le> of_int a / pow2 (bitlen b)"
      by (rule divide_right_mono [OF ra1 pow2_nonneg])
    also have "\<dots> < of_int a / of_int b"
      by (rule divide_strict_left_mono [OF rb2 ra]) (intro mult_pos_pos pow2_pos rb)
    finally show ?thesis by (simp add: x)
  qed
  have upper: "\<bar>x\<bar> < pow2 (?d + 1)"
  proof -
    have "of_int a / of_int b < pow2 (bitlen a) / of_int b"
      by (rule divide_strict_right_mono [OF ra2 rb])
    also have "\<dots> \<le> pow2 (bitlen a) / pow2 (bitlen b - 1)"
      by (rule divide_left_mono [OF rb1 pow2_nonneg]) (intro mult_pos_pos pow2_pos rb)
    also have "\<dots> = pow2 (?d + 1)"
      by (simp add: pow2_diff [symmetric] algebra_simps)
    finally show ?thesis by (simp add: x)
  qed
  show ?thesis
  proof (cases "pow2 ?d \<le> \<bar>x\<bar>")
    case True
    then have "exponent x = ?d" by (simp add: exponent_def q)
    with True upper show ?thesis by simp
  next
    case False
    then have "exponent x = ?d - 1" by (simp add: exponent_def q)
    with False lower show ?thesis by simp
  qed
qed

lemma round_half_even_error: "\<bar>of_int (round_half_even y) - y\<bar> \<le> 1 / 2"
proof -
  have "of_int \<lfloor>y\<rfloor> \<le> y" and "y < of_int \<lfloor>y\<rfloor> + 1"
    by linarith+
  then show ?thesis
    by (auto simp: round_half_even_def Let_def abs_le_iff)
qed

lemma round_half_even_of_int [simp]: "round_half_even (of_int k) = k"
  by (simp add: round_half_even_def)

lemma pow2_less_cancel: "pow2 a < pow2 b \<Longrightarrow> a < b"
  using pow2_mono [of b a] by (cases "a < b") simp_all

lemma binary64_error:
  assumes "pow2 (- 1022) \<le> \<bar>x\<bar>"
  shows "\<bar>binary64 x - x\<bar> \<le> \<bar>x\<bar> / 2 ^ 53"
proof -
  from less_le_trans [OF pow2_pos assms] have nz: "x \<noteq> 0" by simp
  from exponent_bounds [OF nz]
  have lo: "pow2 (exponent x) \<le> \<bar>x\<bar>" and hi: "\<bar>x\<bar> < pow2 (exponent x + 1)"
    by simp_all
  from assms hi have "pow2 (- 1022) < pow2 (exponent x + 1)" by simp
  then have "- 1022 < exponent x + 1" by (rule pow2_less_cancel)
  then have e: "max (exponent x - 52) (- 1074) = exponent x - 52" by simp
  let ?e = "exponent x - 52"
  let ?y = "x / pow2 ?e"
  have pe: "0 < pow2 ?e" by (rule pow2_pos)
  then have x: "x = ?y * pow2 ?e" by simp
  have b: "binary64 x = of_int (round_half_even ?y) * pow2 ?e"
    using nz by (simp add: binary64_def e Let_def)
  have "binary64 x - x = (of_int (round_half_even ?y) - ?y) * pow2 ?e"
    using pe by (simp add: b left_diff_distrib)
  then have "\<bar>binary64 x - x\<bar> = \<bar>of_int (round_half_even ?y) - ?y\<bar> * pow2 ?e"
    using pe by (simp add: abs_mult)
  also have "\<dots> \<le> (1 / 2) * pow2 ?e"
    by (rule mult_right_mono [OF round_half_even_error pow2_nonneg])
  also have "\<dots> = pow2 (exponent x) / 2 ^ 53"
  proof -
    have "pow2 ?e = pow2 (exponent x) / pow2 52" by (rule pow2_diff)
    also have "pow2 52 = 2 ^ 52" using pow2_nat [of 52] by simp
    finally show ?thesis by simp
  qed
  also have "\<dots> \<le> \<bar>x\<bar> / 2 ^ 53"
    using lo by (simp add: divide_right_mono)
  finally show ?thesis .
qed

lemma binary64_of_int:
  assumes "\<bar>k\<bar> < 2 ^ 53"
  shows "binary64 (of_int k) = of_int k"
proof (cases "k = 0")
  case True
  then show ?thesis by simp
next
  case False
  let ?x = "of_int k :: rat"
  from False have nz: "?x \<noteq> 0" by simp
  from exponent_bounds [OF nz]
  have lo: "pow2 (exponent ?x) \<le> \<bar>?x\<bar>" and hi: "\<bar>?x\<bar> < pow2 (exponent ?x + 1)"
    by simp_all
  from False have "1 \<le> \<bar>k\<bar>" by simp
  then have "(1::rat) \<le> \<bar>?x\<bar>" by (simp only: of_int_abs [symmetric] of_int_1_le_iff)
  with hi have "pow2 0 < pow2 (exponent ?x + 1)" by (simp add: pow2_def)
  then have ge: "0 \<le> exponent ?x" using pow2_less_cancel [of 0 "exponent ?x + 1"] by simp
  from assms have "\<bar>?x\<bar> < 2 ^ 53"
    by (simp only: of_int_abs [symmetric]) (metis of_int_less_iff of_int_numeral of_int_power)
  with lo have "pow2 (exponent ?x) < pow2 53" using pow2_nat [of 53] by simp
  then have le: "exponent ?x < 53" by (rule pow2_less_cancel)
  define m where "m = nat (52 - exponent ?x)"
  from ge le have e: "max (exponent ?x - 52) (- 1074) = - int m" by (simp add: m_def)
  have p: "pow2 (- int m) = 1 / 2 ^ m"
    by (cases "m = 0") (simp_all add: pow2_def)
  have "?x / pow2 (- int m) = of_int (k * 2 ^ m)"
    unfolding p by simp
  then have r: "round_half_even (?x / pow2 (- int m)) = k * 2 ^ m"
    by (simp only: round_half_even_of_int)
  have "binary64 ?x = of_int (round_half_even (?x / pow2 (- int m))) * pow2 (- int m)"
    using nz by (simp only: binary64_def e Let_def if_False)
  also have "\<dots> = of_int (k * 2 ^ m) * pow2 (- int m)"
    by (simp only: r)
  also have "\<dots> = of_int (k * 2 ^ m) * (1 / 2 ^ m)"
    by (simp only: p)
  also have "\<dots> = ?x"
    by simp
  finally show ?thesis .
qed


lemma binary64_between:
  assumes "pow2 (- 1022) \<le> x"
  shows "(1 - 1 / 2 ^ 53) * x \<le> binary64 x" and "binary64 x \<le> (1 + 1 / 2 ^ 53) * x"
proof -
  from less_le_trans [OF pow2_pos assms] have "0 < x" .
  then have "\<bar>x\<bar> = x" by simp
  with binary64_error [of x] assms have e: "\<bar>binary64 x - x\<bar> \<le> x / 2 ^ 53" by simp
  from abs_le_D1 [OF e] show "binary64 x \<le> (1 + 1 / 2 ^ 53) * x" by (simp add: algebra_simps)
  from abs_le_D2 [OF e] show "(1 - 1 / 2 ^ 53) * x \<le> binary64 x" by (simp add: algebra_simps)
qed

lemma pow2_1021: "pow2 (- 1021) = 2 * pow2 (- 1022)"
  using pow2_Suc [of "- 1022"] by simp

lemma div_round_between:
  assumes "0 < m" and "pow2 (- 1022) \<le> d / m"
  shows "(1 - 1 / 2 ^ 53) * d \<le> m * binary64 (d / m)"
    and "m * binary64 (d / m) \<le> (1 + 1 / 2 ^ 53) * d"
proof -
  define q where "q = d / m"
  from assms(1) have mq: "m * q = d" by (simp add: q_def)
  from binary64_between [of q] assms(2)
  have b: "(1 - 1 / 2 ^ 53) * q \<le> binary64 q" "binary64 q \<le> (1 + 1 / 2 ^ 53) * q"
    by (simp_all add: q_def)
  from b(1) assms(1) have "m * ((1 - 1 / 2 ^ 53) * q) \<le> m * binary64 q"
    by (simp only: mult_le_cancel_left_pos)
  moreover have "m * ((1 - 1 / 2 ^ 53) * q) = (1 - 1 / 2 ^ 53) * (m * q)"
    by (simp only: mult.left_commute)
  ultimately have "(1 - 1 / 2 ^ 53) * d \<le> m * binary64 q"
    by (simp only: mq)
  then show "(1 - 1 / 2 ^ 53) * d \<le> m * binary64 (d / m)"
    unfolding q_def .
  from b(2) assms(1) have "m * binary64 q \<le> m * ((1 + 1 / 2 ^ 53) * q)"
    by (simp only: mult_le_cancel_left_pos)
  moreover have "m * ((1 + 1 / 2 ^ 53) * q) = (1 + 1 / 2 ^ 53) * (m * q)"
    by (simp only: mult.left_commute)
  ultimately have "m * binary64 q \<le> (1 + 1 / 2 ^ 53) * d"
    by (simp only: mq)
  then show "m * binary64 (d / m) \<le> (1 + 1 / 2 ^ 53) * d"
    unfolding q_def .
qed

lemma scale_div_le:
  fixes c :: rat
  assumes "0 < m" and "c * x \<le> y"
  shows "c * (x / m) \<le> y / m"
proof -
  from assms have "(c * x) / m \<le> y / m" by (simp only: divide_right_mono less_imp_le)
  then show ?thesis by simp
qed

text \<open>The step of the grid, up to rounding, and in the normal range.\<close>

lemma step_bounds:
  assumes "lo < hi" and "2 \<le> n" and "n < 2 ^ 53"
    and "pow2 (- 1021) \<le> (hi - lo) / of_int (n - 1)"
  shows "(1 - 1 / 2 ^ 53) * (hi - lo) \<le> fsub hi lo"
    and "fsub hi lo \<le> (1 + 1 / 2 ^ 53) * (hi - lo)"
    and "(1 - 1 / 2 ^ 53) * fsub hi lo \<le> of_int (n - 1) * price_step lo hi n"
    and "of_int (n - 1) * price_step lo hi n \<le> (1 + 1 / 2 ^ 53) * fsub hi lo"
    and "pow2 (- 1022) \<le> price_step lo hi n"
proof -
  define m where "m = (of_int (n - 1) :: rat)"
  define D where "D = hi - lo"
  define d1 where "d1 = fsub hi lo"
  define P where "P = pow2 (- 1022)"
  define s where "s = price_step lo hi n"
  define X where "X = D / m"
  define Y where "Y = d1 / m"
  have P: "0 < P" unfolding P_def by (rule pow2_pos)
  from assms(2) have m1: "1 \<le> m" by (simp add: m_def)
  then have m0: "0 < m" by simp
  from assms(2,3) have "\<bar>n - 1\<bar> < 2 ^ 53" by simp
  then have fm: "float_of_int (n - 1) = m"
    unfolding float_of_int_def m_def by (rule binary64_of_int)
  from assms(1) have D0: "0 < D" by (simp add: D_def)
  from assms(4) have X2: "2 * P \<le> X"
    by (simp only: pow2_1021 P_def D_def m_def X_def)
  have XD: "X \<le> D"
    using m1 D0 by (simp add: X_def divide_le_eq)
  from X2 XD P have "pow2 (- 1022) \<le> D" unfolding P_def by linarith
  from binary64_between [OF this]
  have d1: "(1 - 1 / 2 ^ 53) * D \<le> d1" "d1 \<le> (1 + 1 / 2 ^ 53) * D"
    by (simp_all only: d1_def fsub_def D_def)
  then show "(1 - 1 / 2 ^ 53) * (hi - lo) \<le> fsub hi lo"
    and "fsub hi lo \<le> (1 + 1 / 2 ^ 53) * (hi - lo)"
    by (simp_all only: d1_def D_def)
  from scale_div_le [OF m0 d1(1)] have Y1: "(1 - 1 / 2 ^ 53) * X \<le> Y"
    by (simp only: X_def Y_def)
  from Y1 X2 P have q: "pow2 (- 1022) \<le> Y" unfolding P_def by simp
  have sdef: "s = binary64 (d1 / m)"
    by (simp only: s_def price_step_def fdiv_def fm d1_def)
  from div_round_between [OF m0 q [unfolded Y_def]]
  have ms: "(1 - 1 / 2 ^ 53) * d1 \<le> m * s" "m * s \<le> (1 + 1 / 2 ^ 53) * d1"
    by (simp_all only: sdef)
  then show "(1 - 1 / 2 ^ 53) * fsub hi lo \<le> of_int (n - 1) * price_step lo hi n"
    and "of_int (n - 1) * price_step lo hi n \<le> (1 + 1 / 2 ^ 53) * fsub hi lo"
    by (simp_all only: d1_def m_def s_def)
  from binary64_between(1) [OF q [unfolded Y_def]]
  have "(1 - 1 / 2 ^ 53) * Y \<le> s" by (simp only: sdef Y_def)
  with Y1 X2 P have "P \<le> s" by simp
  then show "pow2 (- 1022) \<le> price_step lo hi n"
    by (simp only: P_def s_def)
qed

lemma level_bounds:
  assumes "pow2 (- 1022) \<le> lo" and "pow2 (- 1022) \<le> price_step lo hi n"
    and "n < 2 ^ 53" and "i < nat n"
  shows "(1 - 1 / 2 ^ 53) * (lo + (1 - 1 / 2 ^ 53) * (of_nat i * price_step lo hi n))
           \<le> grid_levels lo hi n ! i"
    and "grid_levels lo hi n ! i
           \<le> (1 + 1 / 2 ^ 53) * (lo + (1 + 1 / 2 ^ 53) * (of_nat i * price_step lo hi n))"
proof -
  define s where "s = price_step lo hi n"
  define P where "P = pow2 (- 1022)"
  define x where "x = of_nat i * s"
  define p where "p = binary64 x"
  have P: "0 < P" unfolding P_def by (rule pow2_pos)
  from assms(2) have sP: "P \<le> s" by (simp only: s_def P_def)
  from assms(3,4) have "\<bar>int i\<bar> < 2 ^ 53" by simp
  then have fi: "float_of_int (int i) = of_nat i"
    unfolding float_of_int_def using binary64_of_int [of "int i"] by simp
  have g: "grid_levels lo hi n ! i = binary64 (lo + p)"
    using assms(4) by (simp add: nth_grid_levels fadd_def fmul_def fi p_def x_def s_def)
  have px: "(1 - 1 / 2 ^ 53) * x \<le> p \<and> p \<le> (1 + 1 / 2 ^ 53) * x"
  proof (cases "i = 0")
    case True
    then show ?thesis by (simp add: p_def x_def)
  next
    case False
    then have "(1::rat) \<le> of_nat i" by simp
    then have "1 * s \<le> of_nat i * s"
      using sP P by (intro mult_right_mono) simp_all
    with sP have "pow2 (- 1022) \<le> x" by (simp add: x_def P_def)
    from binary64_between [OF this] show ?thesis by (simp only: p_def)
  qed
  have x0: "0 \<le> x" using sP P by (simp add: x_def)
  with px have p0: "0 \<le> p" by simp
  from assms(1) p0 have "pow2 (- 1022) \<le> lo + p" by simp
  from binary64_between [OF this]
  have gb: "(1 - 1 / 2 ^ 53) * (lo + p) \<le> binary64 (lo + p)"
    "binary64 (lo + p) \<le> (1 + 1 / 2 ^ 53) * (lo + p)"
    by simp_all
  from gb(1) px have "(1 - 1 / 2 ^ 53) * (lo + (1 - 1 / 2 ^ 53) * x) \<le> binary64 (lo + p)"
    by simp
  then show "(1 - 1 / 2 ^ 53) * (lo + (1 - 1 / 2 ^ 53) * (of_nat i * price_step lo hi n))
           \<le> grid_levels lo hi n ! i"
    by (simp only: g x_def s_def)
  from gb(2) px have "binary64 (lo + p) \<le> (1 + 1 / 2 ^ 53) * (lo + (1 + 1 / 2 ^ 53) * x)"
    by simp
  then show "grid_levels lo hi n ! i
           \<le> (1 + 1 / 2 ^ 53) * (lo + (1 + 1 / 2 ^ 53) * (of_nat i * price_step lo hi n))"
    by (simp only: g x_def s_def)
qed

lemma last_level_near_upper:
  assumes "pow2 (- 1022) \<le> lo" and "lo < hi" and "2 \<le> n" and "n < 2 ^ 53"
    and "pow2 (- 1021) \<le> (hi - lo) / of_int (n - 1)"
  shows "\<bar>last (grid_levels lo hi n) - hi\<bar> \<le> 5 * hi / 2 ^ 53"
proof -
  define s where "s = price_step lo hi n"
  define d1 where "d1 = fsub hi lo"
  define ms where "ms = of_int (n - 1) * s"
  define g where "g = last (grid_levels lo hi n)"
  note sb = step_bounds [OF assms(2-5)]
  have d1: "(1 - 1 / 2 ^ 53) * (hi - lo) \<le> d1" "d1 \<le> (1 + 1 / 2 ^ 53) * (hi - lo)"
    using sb(1,2) by (simp_all only: d1_def)
  have ms: "(1 - 1 / 2 ^ 53) * d1 \<le> ms" "ms \<le> (1 + 1 / 2 ^ 53) * d1"
    using sb(3,4) by (simp_all only: d1_def ms_def s_def)
  from less_le_trans [OF pow2_pos assms(1)] have lo0: "0 < lo" .
  from assms(3) have i: "nat n - 1 < nat n" by simp
  from assms(3) have idx: "(of_nat (nat n - 1) :: rat) = of_int (n - 1)" by simp
  from assms(3) have "grid_levels lo hi n \<noteq> []"
    using length_grid_levels [of lo hi n] by auto
  then have gl: "g = grid_levels lo hi n ! (nat n - 1)"
    by (simp add: g_def last_conv_nth length_grid_levels)
  from level_bounds [OF assms(1) sb(5) assms(4) i]
  have lb: "(1 - 1 / 2 ^ 53) * (lo + (1 - 1 / 2 ^ 53) * ms) \<le> g"
    "g \<le> (1 + 1 / 2 ^ 53) * (lo + (1 + 1 / 2 ^ 53) * ms)"
    by (simp_all only: gl idx ms_def s_def)
  from d1 ms lb lo0 assms(2) have "g - hi \<le> 5 * hi / 2 ^ 53" and "hi - g \<le> 5 * hi / 2 ^ 53"
    by simp_all
  then have "\<bar>g - hi\<bar> \<le> 5 * hi / 2 ^ 53"
    by (intro abs_leI) linarith+
  then show ?thesis
    by (simp only: g_def)
qed

lemma consecutive_levels_near_step:
  assumes "pow2 (- 1022) \<le> lo" and "lo < hi" and "2 \<le> n" and "n < 2 ^ 53"
    and "pow2 (- 1021) \<le> (hi - lo) / of_int (n - 1)" and "Suc i < nat n"
  shows "\<bar>grid_levels lo hi n ! Suc i - grid_levels lo hi n ! i - price_step lo hi n\<bar>
           \<le> 5 * hi / 2 ^ 53"
proof -
  define s where "s = price_step lo hi n"
  define d1 where "d1 = fsub hi lo"
  define ms where "ms = of_int (n - 1) * s"
  define x where "x = of_nat i * s"
  define g where "g = grid_levels lo hi n ! i"
  define g' where "g' = grid_levels lo hi n ! Suc i"
  define y where "y = of_nat (Suc i) * price_step lo hi n"
  note sb = step_bounds [OF assms(2-5)]
  have d1: "(1 - 1 / 2 ^ 53) * (hi - lo) \<le> d1" "d1 \<le> (1 + 1 / 2 ^ 53) * (hi - lo)"
    using sb(1,2) by (simp_all only: d1_def)
  have ms: "(1 - 1 / 2 ^ 53) * d1 \<le> ms" "ms \<le> (1 + 1 / 2 ^ 53) * d1"
    using sb(3,4) by (simp_all only: d1_def ms_def s_def)
  from less_le_trans [OF pow2_pos assms(1)] have lo0: "0 < lo" .
  from less_le_trans [OF pow2_pos sb(5)] have s0: "0 < s" by (simp only: s_def)
  then have x0: "0 \<le> x" by (simp add: x_def)
  have x': "y \<le> x + s" "x + s \<le> y"
    by (simp_all add: x_def y_def s_def distrib_right)
  from assms(6) have "int (Suc i) \<le> n - 1" by simp
  then have "(of_nat (Suc i) :: rat) \<le> of_int (n - 1)"
    by (metis of_int_le_iff of_int_of_nat_eq)
  then have "of_nat (Suc i) * price_step lo hi n \<le> of_int (n - 1) * price_step lo hi n"
    using s0 unfolding s_def by (intro mult_right_mono) simp_all
  then have xs: "y \<le> ms" by (simp only: y_def ms_def s_def)
  from assms(6) have i: "i < nat n" by simp
  from level_bounds [OF assms(1) sb(5) assms(4) i]
  have lb: "(1 - 1 / 2 ^ 53) * (lo + (1 - 1 / 2 ^ 53) * x) \<le> g"
    "g \<le> (1 + 1 / 2 ^ 53) * (lo + (1 + 1 / 2 ^ 53) * x)"
    by (simp_all only: g_def x_def s_def)
  from level_bounds [OF assms(1) sb(5) assms(4) assms(6)]
  have lb': "(1 - 1 / 2 ^ 53) * (lo + (1 - 1 / 2 ^ 53) * y) \<le> g'"
    "g' \<le> (1 + 1 / 2 ^ 53) * (lo + (1 + 1 / 2 ^ 53) * y)"
    by (simp_all only: g'_def y_def)
  from d1 ms lb lb' lo0 s0 x0 xs x' assms(2)
  have "g' - g - s \<le> 5 * hi / 2 ^ 53" and "- (g' - g - s) \<le> 5 * hi / 2 ^ 53"
    by (simp_all add: ring_distribs add_divide_distrib diff_divide_distrib)
  then have "\<bar>g' - g - s\<bar> \<le> 5 * hi / 2 ^ 53"
    by (rule abs_leI)
  then show ?thesis
    by (simp only: g_def g'_def s_def)
qed

text \<open>
  Outside the normal range the error of a rounding is at most half the distance between
  two subnormal numbers. With prices up to \<open>2\<^sup>1\<^sup>0\<^sup>2\<^sup>3\<close> and fewer than \<open>2\<^sup>5\<^sup>3\<close> grids, no
  operation in the computation of the levels overflows.
\<close>

lemma binary64_error_general: "\<bar>binary64 x - x\<bar> \<le> \<bar>x\<bar> / 2 ^ 53 + 1 / 2 ^ 1075"
proof (cases "x = 0")
  case True
  then show ?thesis by simp
next
  case nz: False
  from exponent_bounds [OF nz]
  have lo: "pow2 (exponent x) \<le> \<bar>x\<bar>" by simp
  define e where "e = max (exponent x - 52) (- 1074)"
  let ?y = "x / pow2 e"
  have pe: "0 < pow2 e" by (rule pow2_pos)
  have b: "binary64 x = of_int (round_half_even ?y) * pow2 e"
    using nz by (simp add: binary64_def e_def Let_def)
  have "binary64 x - x = (of_int (round_half_even ?y) - ?y) * pow2 e"
    using pe by (simp add: b left_diff_distrib)
  then have "\<bar>binary64 x - x\<bar> = \<bar>of_int (round_half_even ?y) - ?y\<bar> * pow2 e"
    using pe by (simp add: abs_mult)
  also have "\<dots> \<le> (1 / 2) * pow2 e"
    by (rule mult_right_mono [OF round_half_even_error pow2_nonneg])
  finally have err: "\<bar>binary64 x - x\<bar> \<le> (1 / 2) * pow2 e" .
  have nonneg: "0 \<le> \<bar>x\<bar> / 2 ^ 53" by simp
  show ?thesis
  proof (cases "- 1074 \<le> exponent x - 52")
    case True
    then have e: "e = exponent x - 52" by (simp add: e_def)
    have "pow2 e = pow2 (exponent x) / pow2 52" unfolding e by (rule pow2_diff)
    also have "pow2 52 = 2 ^ 52" using pow2_nat [of 52] by simp
    finally have "(1 / 2) * pow2 e = pow2 (exponent x) / 2 ^ 53" by simp
    also have "\<dots> \<le> \<bar>x\<bar> / 2 ^ 53"
      using lo by (simp add: divide_right_mono)
    finally have "(1 / 2) * pow2 e \<le> \<bar>x\<bar> / 2 ^ 53" .
    with err have "\<bar>binary64 x - x\<bar> \<le> \<bar>x\<bar> / 2 ^ 53" by (rule order_trans)
    then show ?thesis by simp
  next
    case False
    then have e: "e = - 1074" by (simp add: e_def)
    have "(1 / 2) * pow2 e = 1 / 2 ^ 1075"
      unfolding e by (simp add: pow2_def)
    with err have "\<bar>binary64 x - x\<bar> \<le> 1 / 2 ^ 1075" by simp
    with nonneg show ?thesis by linarith
  qed
qed

lemma binary64_abs_le: "\<bar>binary64 x\<bar> \<le> 9 / 8 * \<bar>x\<bar> + 1"
proof -
  have "\<bar>binary64 x\<bar> \<le> \<bar>binary64 x - x\<bar> + \<bar>x\<bar>"
    by linarith
  also have "\<dots> \<le> \<bar>x\<bar> / 2 ^ 53 + 1 / 2 ^ 1075 + \<bar>x\<bar>"
    using binary64_error_general [of x] by simp
  also have "\<dots> \<le> 9 / 8 * \<bar>x\<bar> + 1"
  proof -
    have "\<bar>x\<bar> / 2 ^ 53 \<le> \<bar>x\<bar> / 8"
      by (rule divide_left_mono) simp_all
    moreover have "(1::rat) / 2 ^ 1075 \<le> 1" by simp
    ultimately show ?thesis by linarith
  qed
  finally show ?thesis .
qed

lemma float_of_nat_exact:
  assumes "int i < 2 ^ 53"
  shows "float_of_int (int i) = of_nat i"
proof -
  from assms have "\<bar>int i\<bar> < 2 ^ 53" by simp
  then have "binary64 (of_int (int i)) = of_int (int i)" by (rule binary64_of_int)
  then show ?thesis by (simp add: float_of_int_def)
qed

lemma grid_levels_no_overflow:
  assumes "0 < lo" and "lo < hi" and "hi \<le> 2 ^ 1023" and "2 \<le> n" and "n < 2 ^ 53"
    and "i < nat n"
  shows "\<not> overflows (of_int (n - 1))" and "\<not> overflows (of_int (int i))"
    and "\<not> overflows (hi - lo)"
    and "\<not> overflows (fsub hi lo / float_of_int (n - 1))"
    and "\<not> overflows (float_of_int (int i) * price_step lo hi n)"
    and "\<not> overflows (lo + fmul (float_of_int (int i)) (price_step lo hi n))"
proof -
  define H :: rat where "H = 2 ^ 1023"
  have H2: "2 * H = 2 ^ 1024" by (simp add: H_def)
  have Hbig: "2 ^ 60 \<le> H" unfolding H_def by (rule power_increasing) simp_all
  from assms(3) have hiH: "hi \<le> H" by (simp add: H_def)
  define m :: rat where "m = of_int (n - 1)"
  from assms(4) have m1: "1 \<le> m" by (simp add: m_def)
  from assms(5) have "n - 1 < 2 ^ 53" by simp
  then have "(of_int (n - 1) :: rat) < of_int (2 ^ 53)" by (simp only: of_int_less_iff)
  then have m53: "m < 2 ^ 53" by (simp add: m_def)
  from assms(4,5) have "\<bar>n - 1\<bar> < 2 ^ 53" by simp
  then have bm: "binary64 (of_int (n - 1)) = m"
    unfolding m_def by (rule binary64_of_int)
  then have fm: "float_of_int (n - 1) = m" by (simp add: float_of_int_def)
  define k :: rat where "k = of_nat i"
  from assms(6) have "int i \<le> n - 1" by simp
  then have "(of_int (int i) :: rat) \<le> of_int (n - 1)" by (simp only: of_int_le_iff)
  then have km: "k \<le> m" by (simp add: k_def m_def)
  have k0: "0 \<le> k" by (simp add: k_def)
  from assms(5,6) have "int i < 2 ^ 53" by simp
  then have fk: "float_of_int (int i) = k"
    unfolding k_def by (rule float_of_nat_exact)
  then have bk: "binary64 (of_int (int i)) = k" by (simp add: float_of_int_def)
  define d1 where "d1 = binary64 (hi - lo)"
  define s where "s = binary64 (d1 / m)"
  define p where "p = binary64 (k * s)"
  define g where "g = binary64 (lo + p)"
  define a where "a = \<bar>d1\<bar>"
  define b where "b = \<bar>s\<bar>"
  define c where "c = \<bar>p\<bar>"
  have a0: "0 \<le> a" by (simp add: a_def)
  have b0: "0 \<le> b" by (simp add: b_def)
  have c0: "0 \<le> c" by (simp add: c_def)
  from assms(1,2) have "\<bar>hi - lo\<bar> = hi - lo" by simp
  with binary64_abs_le [of "hi - lo"]
  have a: "a \<le> 9 / 8 * hi - 9 / 8 * lo + 1"
    by (simp add: a_def d1_def right_diff_distrib)
  have "\<bar>d1 / m\<bar> = a / m" using m1 by (simp add: a_def)
  with binary64_abs_le [of "d1 / m"]
  have b: "b \<le> 9 / 8 * (a / m) + 1" by (simp add: b_def s_def)
  from m1 a0 have am: "a / m \<le> a"
    using mult_left_mono [of 1 m a] by (simp add: divide_le_eq)
  from m1 have mpos: "0 < m" by simp
  from b mpos have "m * b \<le> m * (9 / 8 * (a / m) + 1)"
    by (simp only: mult_le_cancel_left_pos)
  also have "\<dots> = 9 / 8 * a + m"
    using mpos by (simp add: ring_distribs)
  finally have mb: "m * b \<le> 9 / 8 * a + m" .
  from km b0 have "k * b \<le> m * b" by (rule mult_right_mono)
  from this mb have kb: "k * b \<le> 9 / 8 * a + m" by (rule order_trans)
  have "\<bar>k * s\<bar> = k * b" using k0 by (simp add: b_def abs_mult)
  with binary64_abs_le [of "k * s"]
  have c: "c \<le> 9 / 8 * (k * b) + 1" by (simp add: c_def p_def)
  define x where "x = \<bar>lo + p\<bar>"
  define G where "G = \<bar>g\<bar>"
  have x: "x \<le> lo + c" using assms(1) unfolding x_def c_def by linarith
  have "G \<le> 9 / 8 * x + 1" unfolding G_def g_def x_def by (rule binary64_abs_le)
  with x have g: "G \<le> 9 / 8 * lo + 9 / 8 * c + 1" by linarith
  define kb' where "kb' = k * b"
  define am' where "am' = a / m"
  from m53 have m53': "m < 9007199254740992" by simp
  from Hbig have Hbig': "1152921504606846976 \<le> H" by simp
  note facts = a b [folded am'_def] am [folded am'_def] kb [folded kb'_def] c [folded kb'_def]
    g m53' Hbig' hiH assms(1,2) a0 b0 c0
  have ra: "a < 2 * H" using facts by linarith
  have rb: "b < 2 * H" using facts by linarith
  have rc: "c < 2 * H" using facts by linarith
  have rg: "G < 2 * H" using facts by linarith
  have rm: "m < 2 * H" using facts by linarith
  have rk: "k < 2 * H" using km rm by linarith
  have step: "price_step lo hi n = s"
    by (simp only: price_step_def fdiv_def fsub_def fm d1_def s_def)
  have e4: "binary64 (fsub hi lo / float_of_int (n - 1)) = s"
    by (simp only: fsub_def fm d1_def s_def)
  have e5: "binary64 (float_of_int (int i) * price_step lo hi n) = p"
    by (simp only: fk step p_def)
  have e6: "binary64 (lo + fmul (float_of_int (int i)) (price_step lo hi n)) = g"
    by (simp only: fk step fmul_def p_def g_def)
  from rm m1 have "\<bar>m\<bar> < 2 * H" by linarith
  then show "\<not> overflows (of_int (n - 1))"
    by (simp only: overflows_def bm H2 [symmetric] not_le)
  from rk k0 have "\<bar>k\<bar> < 2 * H" by linarith
  then show "\<not> overflows (of_int (int i))"
    by (simp only: overflows_def bk H2 [symmetric] not_le)
  from ra show "\<not> overflows (hi - lo)"
    by (simp only: overflows_def d1_def [symmetric] a_def H2 [symmetric] not_le)
  from rb show "\<not> overflows (fsub hi lo / float_of_int (n - 1))"
    by (simp only: overflows_def e4 b_def H2 [symmetric] not_le)
  from rc show "\<not> overflows (float_of_int (int i) * price_step lo hi n)"
    by (simp only: overflows_def e5 c_def H2 [symmetric] not_le)
  from rg show "\<not> overflows (lo + fmul (float_of_int (int i)) (price_step lo hi n))"
    by (simp only: overflows_def e6 G_def H2 [symmetric] not_le)
qed

section \<open>The claims\<close>

text \<open>
  C1, as amended: for a validated input with finite float prices
  \<open>0 < lower_price < upper_price \<le> 2\<^sup>1\<^sup>0\<^sup>2\<^sup>3\<close> and \<open>2 \<le> num_grids < 2\<^sup>5\<^sup>3\<close>, no operation of
  the computation overflows, and the levels computed by \<open>setup_grid_strategy\<close> are exactly
  \<open>num_grids\<close> many; level \<open>i\<close>, counted from 0, is the float \<open>lower_price + i * step\<close> with
  \<open>step\<close> the float \<open>(upper_price - lower_price) / (num_grids - 1)\<close>; the first level is the
  lower price. The last level is the upper price, and two consecutive levels differ by the
  step, up to rounding: when the lower price and the exact step are in the normal range of
  the floats, each of the two is off by at most \<open>5 * upper_price / 2\<^sup>5\<^sup>3\<close>. Every result
  the call returns carries these levels.
\<close>

theorem grid_levels_evenly_spaced:
  assumes "binary64 lower_price = lower_price" and "binary64 upper_price = upper_price"
    and "0 < lower_price" and "lower_price < upper_price" and "upper_price \<le> 2 ^ 1023"
    and "2 \<le> num_grids" and "num_grids < 2 ^ 53"
  shows "length (grid_levels lower_price upper_price num_grids) = nat num_grids \<and>
    price_step lower_price upper_price num_grids =
      fdiv (fsub upper_price lower_price) (float_of_int (num_grids - 1)) \<and>
    \<not> overflows (upper_price - lower_price) \<and>
    \<not> overflows (of_int (num_grids - 1)) \<and>
    \<not> overflows (fsub upper_price lower_price / float_of_int (num_grids - 1)) \<and>
    (\<forall>i < nat num_grids.
        \<not> overflows (of_int (int i)) \<and>
        \<not> overflows (float_of_int (int i) * price_step lower_price upper_price num_grids) \<and>
        \<not> overflows (lower_price
              + fmul (float_of_int (int i)) (price_step lower_price upper_price num_grids)) \<and>
        grid_levels lower_price upper_price num_grids ! i =
          fadd lower_price
            (fmul (float_of_int (int i)) (price_step lower_price upper_price num_grids))) \<and>
    hd (grid_levels lower_price upper_price num_grids) = lower_price \<and>
    (pow2 (- 1022) \<le> lower_price \<and>
     pow2 (- 1021) \<le> (upper_price - lower_price) / of_int (num_grids - 1) \<longrightarrow>
       \<bar>last (grid_levels lower_price upper_price num_grids) - upper_price\<bar>
         \<le> 5 * upper_price / 2 ^ 53 \<and>
       (\<forall>i. Suc i < nat num_grids \<longrightarrow>
          \<bar>grid_levels lower_price upper_price num_grids ! Suc i
             - grid_levels lower_price upper_price num_grids ! i
             - price_step lower_price upper_price num_grids\<bar>
            \<le> 5 * upper_price / 2 ^ 53)) \<and>
    (\<forall>ex symbol quantity_per_grid r w.
        setup_grid_strategy ex symbol quantity_per_grid (Some lower_price) (Some upper_price)
          (Some num_grids) = (Inr r, w) \<longrightarrow>
        grid_prices r = grid_levels lower_price upper_price num_grids)"
proof (intro conjI allI impI)
  show "length (grid_levels lower_price upper_price num_grids) = nat num_grids"
    by (rule length_grid_levels)
next
  show "price_step lower_price upper_price num_grids =
      fdiv (fsub upper_price lower_price) (float_of_int (num_grids - 1))"
    by (rule price_step_def)
next
  from assms(6) have "0 < nat num_grids" by simp
  from grid_levels_no_overflow(3) [OF assms(3-7) this]
  show "\<not> overflows (upper_price - lower_price)" .
next
  from assms(6) have "0 < nat num_grids" by simp
  from grid_levels_no_overflow(1) [OF assms(3-7) this]
  show "\<not> overflows (of_int (num_grids - 1))" .
next
  from assms(6) have "0 < nat num_grids" by simp
  from grid_levels_no_overflow(4) [OF assms(3-7) this]
  show "\<not> overflows (fsub upper_price lower_price / float_of_int (num_grids - 1))" .
next
  fix i assume "i < nat num_grids"
  from grid_levels_no_overflow(2) [OF assms(3-7) this]
  show "\<not> overflows (of_int (int i))" .
next
  fix i assume "i < nat num_grids"
  from grid_levels_no_overflow(5) [OF assms(3-7) this]
  show "\<not> overflows (float_of_int (int i) * price_step lower_price upper_price num_grids)" .
next
  fix i assume "i < nat num_grids"
  from grid_levels_no_overflow(6) [OF assms(3-7) this]
  show "\<not> overflows (lower_price
          + fmul (float_of_int (int i)) (price_step lower_price upper_price num_grids))" .
next
  fix i assume "i < nat num_grids"
  then show "grid_levels lower_price upper_price num_grids ! i =
      fadd lower_price
        (fmul (float_of_int (int i)) (price_step lower_price upper_price num_grids))"
    by (simp add: nth_grid_levels)
next
  from assms(6) have "0 < nat num_grids" by simp
  with assms(1) show "hd (grid_levels lower_price upper_price num_grids) = lower_price"
    by (rule hd_grid_levels)
next
  assume normal: "pow2 (- 1022) \<le> lower_price \<and>
     pow2 (- 1021) \<le> (upper_price - lower_price) / of_int (num_grids - 1)"
  then show "\<bar>last (grid_levels lower_price upper_price num_grids) - upper_price\<bar>
         \<le> 5 * upper_price / 2 ^ 53"
    using assms(4,6,7) by (intro last_level_near_upper) simp_all
next
  fix i
  assume normal: "pow2 (- 1022) \<le> lower_price \<and>
     pow2 (- 1021) \<le> (upper_price - lower_price) / of_int (num_grids - 1)"
    and i: "Suc i < nat num_grids"
  from normal have "pow2 (- 1022) \<le> lower_price"
    and "pow2 (- 1021) \<le> (upper_price - lower_price) / of_int (num_grids - 1)"
    by simp_all
  from consecutive_levels_near_step [OF this(1) assms(4,6,7) this(2) i]
  show "\<bar>grid_levels lower_price upper_price num_grids ! Suc i
             - grid_levels lower_price upper_price num_grids ! i
             - price_step lower_price upper_price num_grids\<bar>
            \<le> 5 * upper_price / 2 ^ 53" .
next
  fix ex symbol quantity_per_grid r w
  assume "setup_grid_strategy ex symbol quantity_per_grid (Some lower_price) (Some upper_price)
            (Some num_grids) = (Inr r, w)"
  from setup_grid_strategy_Inr [OF this]
  show "grid_prices r = grid_levels lower_price upper_price num_grids"
    by (auto dest: grid_try_Inr)
qed

theorem grid_levels_evenly_spaced_witness:
  "binary64 43000 = 43000 \<and> binary64 47000 = 47000 \<and> (0::rat) < 43000 \<and>
   (43000::rat) < 47000 \<and> (47000::rat) \<le> 2 ^ 1023 \<and> (2::int) \<le> 3 \<and> (3::int) < 2 ^ 53 \<and>
   pow2 (- 1022) \<le> 43000 \<and>
   pow2 (- 1021) \<le> (47000 - 43000) / of_int (3 - 1) \<and> Suc 1 < nat 3 \<and>
   price_step 43000 47000 3 = 2000 \<and>
   grid_levels 43000 47000 3 = [43000, 45000, 47000] \<and>
   length (grid_levels 43000 47000 3) = 3 \<and>
   hd (grid_levels 43000 47000 3) = 43000 \<and>
   \<not> overflows (47000 - 43000) \<and>
   \<not> overflows (43000 + fmul (float_of_int (int 2)) (price_step 43000 47000 3)) \<and>
   \<bar>last (grid_levels 43000 47000 3) - 47000\<bar> \<le> 5 * 47000 / 2 ^ 53 \<and>
   \<bar>grid_levels 43000 47000 3 ! Suc 1 - grid_levels 43000 47000 3 ! 1
      - price_step 43000 47000 3\<bar> \<le> 5 * 47000 / 2 ^ 53 \<and>
   grid_prices (projr (fst (setup_grid_strategy (scripted Map.empty) ''BTCUSDT''
      (Some (1 / 2)) (Some 43000) (Some 47000) (Some 3)))) = grid_levels 43000 47000 3"
proof -
  have float: "binary64 43000 = 43000" "binary64 47000 = 47000" by code_simp+
  have step: "price_step 43000 47000 3 = 2000" by code_simp
  have levels: "grid_levels 43000 47000 3 = [43000, 45000, 47000]" by code_simp
  have bounds: "(0::rat) < 43000" "(43000::rat) < 47000" "(47000::rat) \<le> 2 ^ 1023"
    "(2::int) \<le> 3" "(3::int) < 2 ^ 53"
    by simp_all
  have small: "pow2 (- 1022) \<le> 43000" "pow2 (- 1021) \<le> (47000 - 43000) / of_int (3 - 1)"
    by (simp_all add: pow2_def)
  have normal: "pow2 (- 1022) \<le> 43000 \<and>
      pow2 (- 1021) \<le> (47000 - 43000) / of_int (3 - 1)"
    using small by simp
  note facts = grid_levels_evenly_spaced [OF float bounds]
  from facts have len: "length (grid_levels 43000 47000 3) = nat 3"
    and first: "hd (grid_levels 43000 47000 3) = 43000"
    and ov1: "\<not> overflows (47000 - 43000)"
    by blast+
  have "2 < nat 3" by simp
  with facts
  have ov2: "\<not> overflows (43000 + fmul (float_of_int (int 2)) (price_step 43000 47000 3))"
    by blast
  from facts normal
  have last: "\<bar>last (grid_levels 43000 47000 3) - 47000\<bar> \<le> 5 * 47000 / 2 ^ 53"
    by blast
  have "Suc 1 < nat 3" by simp
  with facts normal
  have diff: "\<bar>grid_levels 43000 47000 3 ! Suc 1 - grid_levels 43000 47000 3 ! 1
      - price_step 43000 47000 3\<bar> \<le> 5 * 47000 / 2 ^ 53"
    by blast
  from facts grid_run_three_levels
  have run: "grid_prices (projr (fst (setup_grid_strategy (scripted Map.empty) ''BTCUSDT''
      (Some (1 / 2)) (Some 43000) (Some 47000) (Some 3)))) = grid_levels 43000 47000 3"
    by (simp add: levels)
  from len have len3: "length (grid_levels 43000 47000 3) = 3" by simp
  have s1: "Suc 1 < nat 3" by simp
  show ?thesis
    by (intro conjI float bounds small s1 step levels len3 first ov1 ov2 last diff run)
qed

text \<open>
  C1 as stated fails in float arithmetic, on inputs far from any overflow. With lower
  price 1, upper price 30 and 8 grids the last level is \<open>30 + 2\<^sup>-\<^sup>4\<^sup>8\<close>, printed 30.000000000000004, and not the upper price;
  a run on an exchange that accepts every order returns these levels. With lower price 1,
  upper price 2 and 4 grids, the levels of index 1 and 2 do not differ by the step.
\<close>

theorem grid_levels_evenly_spaced_counterexample:
  "last (grid_levels 1 30 8) = 30 + 1 / 2 ^ 48 \<and> last (grid_levels 1 30 8) \<noteq> 30 \<and>
   (\<exists>r w. setup_grid_strategy (scripted Map.empty) ''BTCUSDT'' (Some (1 / 2)) (Some 1)
             (Some 30) (Some 8) = (Inr r, w) \<and>
           length (grid_prices r) = 8 \<and> last (grid_prices r) \<noteq> 30) \<and>
   grid_levels 1 2 4 ! 2 - grid_levels 1 2 4 ! 1 \<noteq> price_step 1 2 4"
proof -
  have "last (grid_levels 1 30 8) = fadd 1 (fmul (float_of_int 7) (price_step 1 30 8))"
    using last_grid_levels [of 8 1 30] by simp
  also have "\<dots> = 30 + 1 / 2 ^ 48"
    by code_simp
  finally have last: "last (grid_levels 1 30 8) = 30 + 1 / 2 ^ 48" .
  from grid_run_accepting [OF validate_symbol_BTCUSDT, of "1 / 2" 1 30 8]
  obtain r w where run: "setup_grid_strategy (scripted Map.empty) ''BTCUSDT'' (Some (1 / 2))
      (Some 1) (Some 30) (Some 8) = (Inr r, w)"
    and prices: "grid_prices r = grid_levels 1 30 8"
    by auto
  have "grid_levels 1 2 4 ! 2 = fadd 1 (fmul (float_of_int (int 2)) (price_step 1 2 4))"
    and "grid_levels 1 2 4 ! 1 = fadd 1 (fmul (float_of_int (int 1)) (price_step 1 2 4))"
    by (simp_all add: nth_grid_levels)
  moreover have "fadd 1 (fmul (float_of_int (int 2)) (price_step 1 2 4))
                   - fadd 1 (fmul (float_of_int (int 1)) (price_step 1 2 4))
                 \<noteq> price_step 1 2 4"
    by code_simp
  ultimately have diff: "grid_levels 1 2 4 ! 2 - grid_levels 1 2 4 ! 1 \<noteq> price_step 1 2 4"
    by simp
  from run prices have "\<exists>r w. setup_grid_strategy (scripted Map.empty) ''BTCUSDT''
      (Some (1 / 2)) (Some 1) (Some 30) (Some 8) = (Inr r, w) \<and>
      length (grid_prices r) = 8 \<and> last (grid_prices r) \<noteq> 30"
    by (simp add: last length_grid_levels)
  with last diff show ?thesis by simp
qed

text \<open>
  C2: the current price is fetched once, before the loop. Then, level by level, a level
  strictly below it gets a GTC limit BUY at that level for the quantity per grid, a level
  strictly above it gets a GTC limit SELL, and a level equal to it gets no order. The
  requests are written out field by field: type LIMIT, time in force GTC, the validated
  symbol, the quantity per grid, the level as the price, and nothing else. The orders
  the exchange returned for the BUY requests make up \<open>buy_orders\<close>, those for the SELL
  requests \<open>sell_orders\<close>, and both are returned with the levels and the current price.
\<close>

theorem grid_orders_by_level:
  assumes "validate_symbol symbol = Inr usym"
    and "setup_grid_strategy ex symbol (Some quantity_per_grid) lower_price upper_price num_grids
           = (Inr r, w)"
  shows "symbol_ticker ex usym = Inr (current_price r) \<and>
    w = [Connect, FetchPrice usym] @ outcome_events (outcomes ex 0 (submitted w)) \<and>
    submitted w =
      concat (map (\<lambda>price.
        if price < current_price r then
          [\<lparr>req_symbol = usym, req_side = ''BUY'', req_type = ''LIMIT'',
            req_timeInForce = Some ''GTC'', req_quantity = quantity_per_grid,
            req_price = Some price, req_stopPrice = None, req_reduceOnly = None\<rparr>]
        else if price > current_price r then
          [\<lparr>req_symbol = usym, req_side = ''SELL'', req_type = ''LIMIT'',
            req_timeInForce = Some ''GTC'', req_quantity = quantity_per_grid,
            req_price = Some price, req_stopPrice = None, req_reduceOnly = None\<rparr>]
        else []) (grid_prices r)) \<and>
    buy_orders r = placed ''BUY'' (outcomes ex 0 (submitted w)) \<and>
    sell_orders r = placed ''SELL'' (outcomes ex 0 (submitted w))"
proof -
  from setup_grid_strategy_Inr [OF assms(2)] assms(1)
  obtain lo hi n where
    body: "grid_try ex usym quantity_per_grid (grid_levels lo hi n) = (Inr r, w)"
    by auto
  let ?reqs = "grid_requests usym quantity_per_grid (current_price r) (grid_levels lo hi n)"
  note run = grid_try_Inr_run [OF body]
  from run have w: "w = [Connect, FetchPrice usym] @ outcome_events (outcomes ex 0 ?reqs)"
    by simp
  then have sub: "submitted w = ?reqs" by simp
  from run have prices: "grid_prices r = grid_levels lo hi n" by simp
  have "symbol_ticker ex usym = Inr (current_price r) \<and>
    w = [Connect, FetchPrice usym] @ outcome_events (outcomes ex 0 (submitted w)) \<and>
    submitted w =
      concat (map (\<lambda>price.
        if price < current_price r then [limit_order usym ''BUY'' quantity_per_grid price]
        else if price > current_price r then [limit_order usym ''SELL'' quantity_per_grid price]
        else []) (grid_prices r)) \<and>
    buy_orders r = placed ''BUY'' (outcomes ex 0 (submitted w)) \<and>
    sell_orders r = placed ''SELL'' (outcomes ex 0 (submitted w))"
    using run w unfolding sub
    by (simp add: grid_requests_by_level prices)
  then show ?thesis
    unfolding limit_order_def .
qed

theorem grid_orders_by_level_witness:
  "validate_symbol ''BTCUSDT'' = Inr ''BTCUSDT'' \<and>
   setup_grid_strategy (scripted Map.empty) ''BTCUSDT'' (Some (1 / 2)) (Some 43000)
     (Some 47000) (Some 3) =
   (Inr \<lparr>buy_orders = [[(''side'', ''BUY'')]], sell_orders = [[(''side'', ''SELL'')]],
          grid_prices = [43000, 45000, 47000], current_price = 45000\<rparr>,
    [Connect, FetchPrice ''BTCUSDT'',
     Submit
      \<lparr>req_symbol = ''BTCUSDT'', req_side = ''BUY'', req_type = ''LIMIT'',
        req_timeInForce = Some ''GTC'', req_quantity = 1 / 2,
        req_price = Some 43000, req_stopPrice = None, req_reduceOnly = None\<rparr>,
     Submit
      \<lparr>req_symbol = ''BTCUSDT'', req_side = ''SELL'', req_type = ''LIMIT'',
        req_timeInForce = Some ''GTC'', req_quantity = 1 / 2,
        req_price = Some 47000, req_stopPrice = None, req_reduceOnly = None\<rparr>]) \<and>
   symbol_ticker (scripted Map.empty) ''BTCUSDT'' = Inr 45000 \<and>
   submitted (snd (setup_grid_strategy (scripted Map.empty) ''BTCUSDT'' (Some (1 / 2))
     (Some 43000) (Some 47000) (Some 3))) =
     [\<lparr>req_symbol = ''BTCUSDT'', req_side = ''BUY'', req_type = ''LIMIT'',
        req_timeInForce = Some ''GTC'', req_quantity = 1 / 2,
        req_price = Some 43000, req_stopPrice = None, req_reduceOnly = None\<rparr>,
      \<lparr>req_symbol = ''BTCUSDT'', req_side = ''SELL'', req_type = ''LIMIT'',
        req_timeInForce = Some ''GTC'', req_quantity = 1 / 2,
        req_price = Some 47000, req_stopPrice = None, req_reduceOnly = None\<rparr>] \<and>
   placed ''BUY'' (outcomes (scripted Map.empty) 0
      [\<lparr>req_symbol = ''BTCUSDT'', req_side = ''BUY'', req_type = ''LIMIT'',
        req_timeInForce = Some ''GTC'', req_quantity = 1 / 2,
        req_price = Some 43000, req_stopPrice = None, req_reduceOnly = None\<rparr>,
       \<lparr>req_symbol = ''BTCUSDT'', req_side = ''SELL'', req_type = ''LIMIT'',
        req_timeInForce = Some ''GTC'', req_quantity = 1 / 2,
        req_price = Some 47000, req_stopPrice = None, req_reduceOnly = None\<rparr>]) = [[(''side'', ''BUY'')]] \<and>
   placed ''SELL'' (outcomes (scripted Map.empty) 0
      [\<lparr>req_symbol = ''BTCUSDT'', req_side = ''BUY'', req_type = ''LIMIT'',
        req_timeInForce = Some ''GTC'', req_quantity = 1 / 2,
        req_price = Some 43000, req_stopPrice = None, req_reduceOnly = None\<rparr>,
       \<lparr>req_symbol = ''BTCUSDT'', req_side = ''SELL'', req_type = ''LIMIT'',
        req_timeInForce = Some ''GTC'', req_quantity = 1 / 2,
        req_price = Some 47000, req_stopPrice = None, req_reduceOnly = None\<rparr>]) = [[(''side'', ''SELL'')]]"
  using grid_orders_by_level [OF validate_symbol_BTCUSDT grid_run_three_levels]
    validate_symbol_BTCUSDT grid_run_three_levels
  by (simp add: limit_order_def)




text \<open>
  C4, as amended: with validated inputs, an exchange error (BinanceAPIException) raised
  by the submission of a grid level or of a TWAP slice is caught and logged; the loop goes
  on with the remaining items and the call returns what was placed. Every other error
  raised inside the loop body stops the run, like an error outside the loop (building the
  client, fetching the price): it is logged, nothing more is submitted, and the call
  raises it. The seven parts: a grid run with tolerated responses only, a grid run up to
  an unexpected error, a failed price fetch, a failed client, and the same for TWAP
  (which fetches no price).
\<close>

theorem loop_errors:
  assumes "validate_symbol symbol = Inr usym" and "0 < q" and "0 < lo" and "lo < hi" and "2 \<le> n"
    and "validate_side side = Inr uside" and "0 < total_quantity" and "1 \<le> num_orders"
    and "1 \<le> interval_seconds"
    and "req = market_order usym uside (quantity_per_order total_quantity num_orders)"
  shows
    "(\<forall>cur reqs.
        connect ex = None \<and> symbol_ticker ex usym = Inr cur \<and>
        reqs = grid_requests usym q cur (grid_levels lo hi n) \<and>
        (\<forall>j < length reqs. tolerated (create_order ex j (reqs ! j))) \<longrightarrow>
        setup_grid_strategy ex symbol (Some q) (Some lo) (Some hi) (Some n) =
          (Inr \<lparr>buy_orders = placed ''BUY'' (outcomes ex 0 reqs),
                sell_orders = placed ''SELL'' (outcomes ex 0 reqs),
                grid_prices = grid_levels lo hi n, current_price = cur\<rparr>,
           [Connect, FetchPrice usym] @ outcome_events (outcomes ex 0 reqs))) \<and>
     (\<forall>cur reqs k e.
        connect ex = None \<and> symbol_ticker ex usym = Inr cur \<and>
        reqs = grid_requests usym q cur (grid_levels lo hi n) \<and> k < length reqs \<and>
        (\<forall>j < k. tolerated (create_order ex j (reqs ! j))) \<and>
        create_order ex k (reqs ! k) = Inl e \<and> e \<noteq> BinanceAPIException \<longrightarrow>
        setup_grid_strategy ex symbol (Some q) (Some lo) (Some hi) (Some n) =
          (Inl e, [Connect, FetchPrice usym] @ outcome_events (outcomes ex 0 (take k reqs))
                    @ [Submit (reqs ! k), LogError e, LogError e])) \<and>
     (\<forall>e. connect ex = None \<and> symbol_ticker ex usym = Inl e \<longrightarrow>
        setup_grid_strategy ex symbol (Some q) (Some lo) (Some hi) (Some n) =
          (Inl e, [Connect, FetchPrice usym, LogError e, LogError e])) \<and>
     (\<forall>e. connect ex = Some e \<longrightarrow>
        setup_grid_strategy ex symbol (Some q) (Some lo) (Some hi) (Some n) =
          (Inl e, [Connect, LogError e, LogError e, LogError e])) \<and>
     ((\<forall>j < nat num_orders. tolerated (create_order ex j req)) \<and> connect ex = None \<longrightarrow>
        execute_twap ex symbol side (Some total_quantity) (Some num_orders)
            (Some interval_seconds) =
          (Inr (successes (map (\<lambda>j. (req, create_order ex j req)) [0..<nat num_orders])),
           Connect # concat (map (slice_events ex req num_orders interval_seconds)
                               [0..<nat num_orders]))) \<and>
     (\<forall>k e. connect ex = None \<and> k < nat num_orders \<and>
        (\<forall>j < k. tolerated (create_order ex j req)) \<and>
        create_order ex k req = Inl e \<and> e \<noteq> BinanceAPIException \<longrightarrow>
        execute_twap ex symbol side (Some total_quantity) (Some num_orders)
            (Some interval_seconds) =
          (Inl e, Connect # concat (map (slice_events ex req num_orders interval_seconds) [0..<k])
                    @ [Submit req, LogError e, LogError e])) \<and>
     (\<forall>e. connect ex = Some e \<longrightarrow>
        execute_twap ex symbol side (Some total_quantity) (Some num_orders)
            (Some interval_seconds) =
          (Inl e, [Connect, LogError e, LogError e, LogError e]))"
proof -
  note grid = setup_grid_strategy_valid [OF assms(1-5), of ex]
  note twap = execute_twap_valid [OF assms(1) assms(6-9), of ex]
  have g_run: "setup_grid_strategy ex symbol (Some q) (Some lo) (Some hi) (Some n) =
          (Inr \<lparr>buy_orders = placed ''BUY'' (outcomes ex 0 reqs),
                sell_orders = placed ''SELL'' (outcomes ex 0 reqs),
                grid_prices = grid_levels lo hi n, current_price = cur\<rparr>,
           [Connect, FetchPrice usym] @ outcome_events (outcomes ex 0 reqs))"
    if "connect ex = None" and "symbol_ticker ex usym = Inr cur"
      and "reqs = grid_requests usym q cur (grid_levels lo hi n)"
      and "\<forall>j < length reqs. tolerated (create_order ex j (reqs ! j))" for cur reqs
  proof -
    from all_tolerated [OF that(4)]
    have "list_all (\<lambda>out. tolerated (snd out))
            (outcomes ex 0 (grid_requests usym q cur (grid_levels lo hi n)))"
      by (simp add: that(3))
    from grid_try_run [OF that(1,2) this] show ?thesis
      by (simp add: grid that(3))
  qed
  have g_abort: "setup_grid_strategy ex symbol (Some q) (Some lo) (Some hi) (Some n) =
          (Inl e, [Connect, FetchPrice usym] @ outcome_events (outcomes ex 0 (take k reqs))
                    @ [Submit (reqs ! k), LogError e, LogError e])"
    if "connect ex = None" and "symbol_ticker ex usym = Inr cur"
      and "reqs = grid_requests usym q cur (grid_levels lo hi n)" and "k < length reqs"
      and "\<forall>j < k. tolerated (create_order ex j (reqs ! j))"
      and "create_order ex k (reqs ! k) = Inl e" and "e \<noteq> BinanceAPIException" for cur reqs k e
    using grid_try_abort_at [OF that] by (simp add: grid)
  have g_price: "setup_grid_strategy ex symbol (Some q) (Some lo) (Some hi) (Some n) =
          (Inl e, [Connect, FetchPrice usym, LogError e, LogError e])"
    if "connect ex = None" and "symbol_ticker ex usym = Inl e" for e
    using grid_try_no_price [OF that] by (simp add: grid)
  have g_client: "setup_grid_strategy ex symbol (Some q) (Some lo) (Some hi) (Some n) =
          (Inl e, [Connect, LogError e, LogError e, LogError e])"
    if "connect ex = Some e" for e
    using grid_try_no_client [OF that] by (simp add: grid)
  have t_run: "execute_twap ex symbol side (Some total_quantity) (Some num_orders)
            (Some interval_seconds) =
          (Inr (successes (map (\<lambda>j. (req, create_order ex j req)) [0..<nat num_orders])),
           Connect # concat (map (slice_events ex req num_orders interval_seconds)
                               [0..<nat num_orders]))"
    if "\<forall>j < nat num_orders. tolerated (create_order ex j req)" and "connect ex = None"
    using twap_try_run [OF that(2) that(1) [unfolded assms(10)], of interval_seconds]
    by (simp add: twap assms(10))
  have t_abort: "execute_twap ex symbol side (Some total_quantity) (Some num_orders)
            (Some interval_seconds) =
          (Inl e, Connect # concat (map (slice_events ex req num_orders interval_seconds) [0..<k])
                    @ [Submit req, LogError e, LogError e])"
    if "connect ex = None" and "k < nat num_orders"
      and "\<forall>j < k. tolerated (create_order ex j req)"
      and "create_order ex k req = Inl e" and "e \<noteq> BinanceAPIException" for k e
    using twap_try_abort [OF that(1,2) that(3) [unfolded assms(10)] that(4) [unfolded assms(10)]
        that(5), of interval_seconds]
    by (simp add: twap assms(10))
  have t_client: "execute_twap ex symbol side (Some total_quantity) (Some num_orders)
            (Some interval_seconds) =
          (Inl e, [Connect, LogError e, LogError e, LogError e])"
    if "connect ex = Some e" for e
    using twap_try_no_client [OF that] by (simp add: twap)
  show ?thesis
    using g_run g_abort g_price g_client t_run t_abort t_client by blast
qed

theorem loop_errors_witness:
  "validate_symbol ''BTCUSDT'' = Inr ''BTCUSDT'' \<and> validate_side ''buy'' = Inr ''BUY'' \<and>
   (0::rat) < 1 / 2 \<and> (0::rat) < 43000 \<and> (43000::rat) < 47000 \<and> (2::int) \<le> 5 \<and>
   (0::rat) < 3 \<and> (1::int) \<le> 3 \<and> (1::int) \<le> 5 \<and>
   setup_grid_strategy rejecting_second_order ''BTCUSDT'' (Some (1 / 2)) (Some 43000)
       (Some 47000) (Some 5) =
     (Inr \<lparr>buy_orders = [[(''side'', ''BUY'')]],
           sell_orders = [[(''side'', ''SELL'')], [(''side'', ''SELL'')]],
           grid_prices = [43000, 44000, 45000, 46000, 47000], current_price = 45000\<rparr>,
      [Connect, FetchPrice ''BTCUSDT'',
       Submit (limit_order ''BTCUSDT'' ''BUY'' (1 / 2) 43000),
       Submit (limit_order ''BTCUSDT'' ''BUY'' (1 / 2) 44000),
       LogError BinanceAPIException,
       Submit (limit_order ''BTCUSDT'' ''SELL'' (1 / 2) 46000),
       Submit (limit_order ''BTCUSDT'' ''SELL'' (1 / 2) 47000)]) \<and>
   execute_twap failing_first_order ''BTCUSDT'' ''buy'' (Some 3) (Some 3) (Some 5) =
     (Inl OtherException,
      [Connect, Submit (market_order ''BTCUSDT'' ''BUY'' 1), LogError OtherException,
       LogError OtherException])"
proof -
  let ?reqs = "[limit_order ''BTCUSDT'' ''BUY'' (1 / 2) 43000,
      limit_order ''BTCUSDT'' ''BUY'' (1 / 2) 44000,
      limit_order ''BTCUSDT'' ''SELL'' (1 / 2) 46000,
      limit_order ''BTCUSDT'' ''SELL'' (1 / 2) 47000]"
  have nums: "(0::rat) < 1 / 2" "(0::rat) < 43000" "(43000::rat) < 47000" "(2::int) \<le> 5"
    "(0::rat) < 3" "(1::int) \<le> 3" "(1::int) \<le> 5"
    by simp_all
  note inst = loop_errors [OF validate_symbol_BTCUSDT nums(1-4) validate_side_buy nums(5-7) refl]
  have levels: "grid_levels 43000 47000 5 = [43000, 44000, 45000, 46000, 47000]"
    by code_simp
  have "connect rejecting_second_order = None \<and>
        symbol_ticker rejecting_second_order ''BTCUSDT'' = Inr 45000 \<and>
        ?reqs = grid_requests ''BTCUSDT'' (1 / 2) 45000 (grid_levels 43000 47000 5) \<and>
        (\<forall>j < length ?reqs. tolerated (create_order rejecting_second_order j (?reqs ! j)))"
    by (simp add: grid_requests_five_levels)
       (simp add: rejecting_second_order_def scripted_def)
  from inst [of rejecting_second_order, THEN conjunct1, rule_format, OF this]
  have grid: "setup_grid_strategy rejecting_second_order ''BTCUSDT'' (Some (1 / 2)) (Some 43000)
       (Some 47000) (Some 5) =
     (Inr \<lparr>buy_orders = [[(''side'', ''BUY'')]],
           sell_orders = [[(''side'', ''SELL'')], [(''side'', ''SELL'')]],
           grid_prices = [43000, 44000, 45000, 46000, 47000], current_price = 45000\<rparr>,
      [Connect, FetchPrice ''BTCUSDT'',
       Submit (limit_order ''BTCUSDT'' ''BUY'' (1 / 2) 43000),
       Submit (limit_order ''BTCUSDT'' ''BUY'' (1 / 2) 44000),
       LogError BinanceAPIException,
       Submit (limit_order ''BTCUSDT'' ''SELL'' (1 / 2) 46000),
       Submit (limit_order ''BTCUSDT'' ''SELL'' (1 / 2) 47000)])"
    by (simp add: levels) (simp add: rejecting_second_order_def scripted_def)
  have "connect failing_first_order = None \<and> 0 < nat 3 \<and>
        (\<forall>j < 0. tolerated (create_order failing_first_order j
                    (market_order ''BTCUSDT'' ''BUY'' (quantity_per_order 3 3)))) \<and>
        create_order failing_first_order 0 (market_order ''BTCUSDT'' ''BUY'' (quantity_per_order 3 3))
          = Inl OtherException \<and>
        OtherException \<noteq> BinanceAPIException"
    by (simp add: failing_first_order_def scripted_def)
  from inst [of failing_first_order, THEN conjunct2, THEN conjunct2, THEN conjunct2,
      THEN conjunct2, THEN conjunct2, THEN conjunct1, rule_format, OF this]
  have twap: "execute_twap failing_first_order ''BTCUSDT'' ''buy'' (Some 3) (Some 3) (Some 5) =
     (Inl OtherException,
      [Connect, Submit (market_order ''BTCUSDT'' ''BUY'' 1), LogError OtherException,
       LogError OtherException])"
    by (simp add: quantity_per_order_thirds)
  from grid twap nums show ?thesis
    by (simp add: validate_symbol_BTCUSDT validate_side_buy)
qed

text \<open>
  C4 as stated fails when a submission raises an unexpected error: the grid run stops at
  the first level, the SELL order at 47000 is never attempted and the call raises instead
  of returning partial results; the TWAP run stops at the first slice likewise.
\<close>

theorem loop_errors_counterexample:
  "setup_grid_strategy failing_first_order ''BTCUSDT'' (Some (1 / 2)) (Some 43000)
       (Some 47000) (Some 3) =
     (Inl OtherException,
      [Connect, FetchPrice ''BTCUSDT'',
       Submit (limit_order ''BTCUSDT'' ''BUY'' (1 / 2) 43000),
       LogError OtherException, LogError OtherException]) \<and>
   execute_twap failing_first_order ''BTCUSDT'' ''BUY'' (Some 2) (Some 2) (Some 5) =
     (Inl OtherException,
      [Connect, Submit (market_order ''BTCUSDT'' ''BUY'' 1), LogError OtherException,
       LogError OtherException])"
  by code_simp

text \<open>
  C5: when the submission of exactly one level is rejected by the exchange and all others
  are accepted, every level is still attempted and the call returns; the result holds
  every accepted order, those from before the rejected level and those from after it.
\<close>

theorem grid_single_rejection:
  assumes "validate_symbol symbol = Inr usym" and "0 < q" and "0 < lo" and "lo < hi" and "2 \<le> n"
    and "connect ex = None" and "symbol_ticker ex usym = Inr cur"
    and "reqs = grid_requests usym q cur (grid_levels lo hi n)"
    and "k < length reqs" and "create_order ex k (reqs ! k) = Inl BinanceAPIException"
    and "\<forall>j < length reqs. j \<noteq> k \<longrightarrow> (\<exists>order. create_order ex j (reqs ! j) = Inr order)"
  shows "\<exists>r w. setup_grid_strategy ex symbol (Some q) (Some lo) (Some hi) (Some n) = (Inr r, w) \<and>
    submitted w = reqs \<and>
    buy_orders r = placed ''BUY'' (outcomes ex 0 reqs) \<and>
    sell_orders r = placed ''SELL'' (outcomes ex 0 reqs) \<and>
    (\<forall>j < length reqs. j \<noteq> k \<longrightarrow>
       (\<exists>order. create_order ex j (reqs ! j) = Inr order \<and>
          order \<in> set (if req_side (reqs ! j) = ''BUY'' then buy_orders r else sell_orders r)))"
proof -
  let ?outs = "outcomes ex 0 reqs"
  have nth: "?outs ! j = (reqs ! j, create_order ex j (reqs ! j))" if "j < length reqs" for j
    using nth_outcomes [OF that, of ex 0] by simp
  have "tolerated (snd (?outs ! j))" if "j < length reqs" for j
  proof (cases "j = k")
    case True
    with assms(10) nth [OF that] show ?thesis by simp
  next
    case False
    with assms(11) that obtain order where "create_order ex j (reqs ! j) = Inr order" by blast
    with nth [OF that] show ?thesis by simp
  qed
  then have "list_all (\<lambda>out. tolerated (snd out)) ?outs"
    by (simp add: list_all_length)
  then have all: "list_all (\<lambda>out. tolerated (snd out))
                    (outcomes ex 0 (grid_requests usym q cur (grid_levels lo hi n)))"
    by (simp add: assms(8))
  let ?r = "\<lparr>buy_orders = placed ''BUY'' ?outs, sell_orders = placed ''SELL'' ?outs,
              grid_prices = grid_levels lo hi n, current_price = cur\<rparr>"
  let ?w = "[Connect, FetchPrice usym] @ outcome_events ?outs"
  have run: "setup_grid_strategy ex symbol (Some q) (Some lo) (Some hi) (Some n) = (Inr ?r, ?w)"
    by (simp add: setup_grid_strategy_valid [OF assms(1-5)] grid_try_run [OF assms(6,7) all]
          assms(8))
  have sub: "submitted ?w = reqs" by simp
  have mem: "\<exists>order. create_order ex j (reqs ! j) = Inr order \<and>
          order \<in> set (if req_side (reqs ! j) = ''BUY'' then buy_orders ?r else sell_orders ?r)"
    if "j < length reqs" and "j \<noteq> k" for j
  proof -
    from assms(11) that obtain order where ord: "create_order ex j (reqs ! j) = Inr order"
      by blast
    from that(1) have len: "j < length ?outs" by simp
    from nth [OF that(1)] ord have out: "?outs ! j = (reqs ! j, Inr order)" by simp
    from that(1) obtain price where
      req: "reqs ! j = limit_order usym (if price < cur then ''BUY'' else ''SELL'') q price"
      by (auto simp: assms(8) grid_requests_def grid_request_def)
    show ?thesis
    proof (cases "price < cur")
      case True
      with req have side: "req_side (reqs ! j) = ''BUY''" by simp
      from placed_member [OF len out this] have "order \<in> set (buy_orders ?r)" by simp
      with side ord show ?thesis by simp
    next
      case False
      with req have side: "req_side (reqs ! j) = ''SELL''" by simp
      from placed_member [OF len out this] have "order \<in> set (sell_orders ?r)" by simp
      with side ord show ?thesis by simp
    qed
  qed
  from run sub mem show ?thesis by (intro exI [of _ ?r] exI [of _ ?w]) simp
qed



theorem grid_single_rejection_witness:
  "validate_symbol ''BTCUSDT'' = Inr ''BTCUSDT'' \<and>
   connect rejecting_second_order = None \<and>
   symbol_ticker rejecting_second_order ''BTCUSDT'' = Inr 45000 \<and>
   create_order rejecting_second_order 0 (limit_order ''BTCUSDT'' ''BUY'' (1 / 2) 43000)
     = Inr [(''side'', ''BUY'')] \<and>
   create_order rejecting_second_order 1 (limit_order ''BTCUSDT'' ''BUY'' (1 / 2) 44000)
     = Inl BinanceAPIException \<and>
   create_order rejecting_second_order 2 (limit_order ''BTCUSDT'' ''SELL'' (1 / 2) 46000)
     = Inr [(''side'', ''SELL'')] \<and>
   create_order rejecting_second_order 3 (limit_order ''BTCUSDT'' ''SELL'' (1 / 2) 47000)
     = Inr [(''side'', ''SELL'')] \<and>
   (\<exists>r w. setup_grid_strategy rejecting_second_order ''BTCUSDT'' (Some (1 / 2)) (Some 43000)
             (Some 47000) (Some 5) = (Inr r, w) \<and>
      submitted w =
        [limit_order ''BTCUSDT'' ''BUY'' (1 / 2) 43000,
         limit_order ''BTCUSDT'' ''BUY'' (1 / 2) 44000,
         limit_order ''BTCUSDT'' ''SELL'' (1 / 2) 46000,
         limit_order ''BTCUSDT'' ''SELL'' (1 / 2) 47000] \<and>
      buy_orders r = [[(''side'', ''BUY'')]] \<and>
      sell_orders r = [[(''side'', ''SELL'')], [(''side'', ''SELL'')]])"
proof -
  let ?reqs = "[limit_order ''BTCUSDT'' ''BUY'' (1 / 2) 43000,
      limit_order ''BTCUSDT'' ''BUY'' (1 / 2) 44000,
      limit_order ''BTCUSDT'' ''SELL'' (1 / 2) 46000,
      limit_order ''BTCUSDT'' ''SELL'' (1 / 2) 47000]"
  have ex: "connect rejecting_second_order = None"
    "symbol_ticker rejecting_second_order ''BTCUSDT'' = Inr 45000"
    by (simp_all add: rejecting_second_order_def scripted_def)
  have others: "\<forall>j < length ?reqs. j \<noteq> 1 \<longrightarrow>
      (\<exists>order. create_order rejecting_second_order j (?reqs ! j) = Inr order)"
    by (simp add: rejecting_second_order_def scripted_def)
  have rejected: "create_order rejecting_second_order 1 (?reqs ! 1) = Inl BinanceAPIException"
    by (simp add: rejecting_second_order_def scripted_def)
  from grid_single_rejection [OF validate_symbol_BTCUSDT _ _ _ _ ex
      grid_requests_five_levels [symmetric] _ rejected others]
  show ?thesis
    by (simp add: validate_symbol_BTCUSDT rejecting_second_order_def scripted_def) blast
qed

text \<open>
  C6: \<open>place_oco_order\<close> closes on the side opposite to the validated side. It first
  submits a reduce-only TAKE_PROFIT order whose limit price and trigger are both \<open>price\<close>,
  then a reduce-only STOP order with trigger \<open>stop_price\<close> and limit \<open>stop_limit_price\<close>,
  both for the same closing side and quantity. When the first submission raises, the
  second is never made and the error reaches the caller.
\<close>

theorem place_oco_order_sequence:
  assumes "validate_symbol symbol = Inr usym" and "validate_side side = Inr uside"
    and "0 < quantity" and "0 < price" and "0 < stop_price" and "0 < stop_limit_price"
    and "connect ex = None"
  shows
    "let close_side = (if uside = ''BUY'' then ''SELL'' else ''BUY'');
         tp = \<lparr>req_symbol = usym, req_side = close_side, req_type = ''TAKE_PROFIT'',
               req_timeInForce = Some ''GTC'', req_quantity = quantity,
               req_price = Some price, req_stopPrice = Some price,
               req_reduceOnly = Some ''true''\<rparr>;
         sl = \<lparr>req_symbol = usym, req_side = close_side, req_type = ''STOP'',
               req_timeInForce = Some ''GTC'', req_quantity = quantity,
               req_price = Some stop_limit_price, req_stopPrice = Some stop_price,
               req_reduceOnly = Some ''true''\<rparr>
     in (uside = ''BUY'' \<and> close_side = ''SELL'' \<or> uside = ''SELL'' \<and> close_side = ''BUY'') \<and>
        place_oco_order ex symbol side (Some quantity) (Some price) (Some stop_price)
            (Some stop_limit_price) =
          (case create_order ex 0 tp of
             Inl e \<Rightarrow> (Inl e, [Connect, Submit tp, LogError e, LogError e])
           | Inr t \<Rightarrow>
               (case create_order ex 1 sl of
                  Inl e \<Rightarrow> (Inl e, [Connect, Submit tp, Submit sl, LogError e, LogError e])
                | Inr s \<Rightarrow> (Inr \<lparr>take_profit = t, stop_loss = s\<rparr>,
                             [Connect, Submit tp, Submit sl])))"
  using assms validate_side_cases [OF assms(2)]
  by (auto simp: place_oco_order_def oco_try_def validate_quantity_def validate_price_def
        get_binance_client_def futures_create_order_def take_profit_order_def
        stop_loss_order_def Let_def
      split: sum.splits)

theorem place_oco_order_sequence_witness:
  "validate_symbol ''BTCUSDT'' = Inr ''BTCUSDT'' \<and> validate_side ''buy'' = Inr ''BUY'' \<and>
   (0::rat) < 1 / 2 \<and> (0::rat) < 46000 \<and> (0::rat) < 43000 \<and> (0::rat) < 42900 \<and>
   connect rejecting_first_order = None \<and> connect (scripted Map.empty) = None \<and>
   place_oco_order rejecting_first_order ''BTCUSDT'' ''buy'' (Some (1 / 2)) (Some 46000)
       (Some 43000) (Some 42900) =
     (Inl BinanceAPIException,
      [Connect, Submit (take_profit_order ''BTCUSDT'' ''SELL'' (1 / 2) 46000),
       LogError BinanceAPIException, LogError BinanceAPIException]) \<and>
   place_oco_order (scripted Map.empty) ''BTCUSDT'' ''buy'' (Some (1 / 2)) (Some 46000)
       (Some 43000) (Some 42900) =
     (Inr \<lparr>take_profit = [(''side'', ''SELL'')], stop_loss = [(''side'', ''SELL'')]\<rparr>,
      [Connect, Submit (take_profit_order ''BTCUSDT'' ''SELL'' (1 / 2) 46000),
       Submit (stop_loss_order ''BTCUSDT'' ''SELL'' (1 / 2) 42900 43000)])"
  using
    place_oco_order_sequence [OF validate_symbol_BTCUSDT validate_side_buy,
      of "1 / 2" 46000 43000 42900 rejecting_first_order]
    place_oco_order_sequence [OF validate_symbol_BTCUSDT validate_side_buy,
      of "1 / 2" 46000 43000 42900 "scripted Map.empty"]
  by (simp add: validate_symbol_BTCUSDT validate_side_buy rejecting_first_order_def scripted_def
        take_profit_order_def stop_loss_order_def Let_def)

text \<open>
  C7: a call with \<open>num_grids = 1\<close> passes every validator and then raises
  ZeroDivisionError when it computes the step, before any network call: the error is not
  a ValidationError.
\<close>

theorem setup_grid_strategy_one_grid:
  "setup_grid_strategy ex ''BTCUSDT'' (Some (1 / 2)) (Some 43000) (Some 47000) (Some 1) =
     (Inl ZeroDivisionError, [])"
  by (simp add: setup_grid_strategy_def validate_symbol_BTCUSDT validate_quantity_def
        validate_price_def validate_positive_integer_def)

text \<open>
  C8: with side BUY, \<open>validate_stop_limit_prices\<close> raises a ValidationError exactly when
  the stop price is below the limit price, so a stop price at or above the limit price
  succeeds; with side SELL it raises exactly when the stop price is above the limit
  price. The call (100, 99, BUY) succeeds and the call (99, 100, BUY) fails.
\<close>

theorem validate_stop_limit_prices_rule:
  "(validate_stop_limit_prices stop_price limit_price (PyStr ''BUY'') = Inl ValidationError
      \<longleftrightarrow> stop_price < limit_price) \<and>
   (validate_stop_limit_prices stop_price limit_price (PyStr ''BUY'') = Inr ()
      \<longleftrightarrow> stop_price \<ge> limit_price) \<and>
   (validate_stop_limit_prices stop_price limit_price (PyStr ''SELL'') = Inl ValidationError
      \<longleftrightarrow> stop_price > limit_price) \<and>
   (validate_stop_limit_prices stop_price limit_price (PyStr ''SELL'') = Inr ()
      \<longleftrightarrow> stop_price \<le> limit_price) \<and>
   validate_stop_limit_prices 100 99 (PyStr ''BUY'') = Inr () \<and>
   validate_stop_limit_prices 99 100 (PyStr ''BUY'') = Inl ValidationError"
  by (auto simp: validate_stop_limit_prices_def)

text \<open>
  C9: in a TWAP run, a slice whose submission the exchange rejects leaves a submission and
  an error line and nothing else: the next slice is submitted with no pause in between.
  The pause of \<open>interval_seconds\<close> follows a slice only when its submission succeeded
  and it is not the last slice. This holds for the slices of a run that completes, and for
  the slices before an unexpected error stops the run.
\<close>

theorem twap_pause_only_after_success:
  assumes "validate_symbol symbol = Inr usym" and "validate_side side = Inr uside"
    and "0 < total_quantity" and "1 \<le> num_orders" and "1 \<le> interval_seconds"
    and "connect ex = None"
    and "req = market_order usym uside (quantity_per_order total_quantity num_orders)"
    and "slice = (\<lambda>i. case create_order ex i req of
                     Inr order \<Rightarrow>
                       if int i < num_orders - 1 then [Submit req, Sleep interval_seconds]
                       else [Submit req]
                   | Inl e \<Rightarrow> [Submit req, LogError e])"
  shows
    "((\<forall>j < nat num_orders. tolerated (create_order ex j req)) \<longrightarrow>
        snd (execute_twap ex symbol side (Some total_quantity) (Some num_orders)
               (Some interval_seconds)) =
          Connect # concat (map slice [0..<nat num_orders])) \<and>
     (\<forall>k e. k < nat num_orders \<and> (\<forall>j < k. tolerated (create_order ex j req)) \<and>
            create_order ex k req = Inl e \<and> e \<noteq> BinanceAPIException \<longrightarrow>
        snd (execute_twap ex symbol side (Some total_quantity) (Some num_orders)
               (Some interval_seconds)) =
          Connect # concat (map slice [0..<k]) @ [Submit req, LogError e, LogError e])"
proof -
  have slice: "slice = slice_events ex req num_orders interval_seconds"
    by (simp add: assms(8) slice_events_def fun_eq_iff)
  note valid = execute_twap_valid [OF assms(1-5), of ex]
  show ?thesis
  proof (intro conjI allI impI)
    assume "\<forall>j < nat num_orders. tolerated (create_order ex j req)"
    then have "\<forall>j < nat num_orders. tolerated (create_order ex j
                  (market_order usym uside (quantity_per_order total_quantity num_orders)))"
      by (simp add: assms(7))
    from twap_try_run [OF assms(6) this, of interval_seconds]
    show "snd (execute_twap ex symbol side (Some total_quantity) (Some num_orders)
               (Some interval_seconds)) =
          Connect # concat (map slice [0..<nat num_orders])"
      by (simp add: valid slice assms(7))
  next
    fix k e
    assume a: "k < nat num_orders \<and> (\<forall>j < k. tolerated (create_order ex j req)) \<and>
            create_order ex k req = Inl e \<and> e \<noteq> BinanceAPIException"
    then have "k < nat num_orders"
      and "\<forall>j < k. tolerated (create_order ex j
                  (market_order usym uside (quantity_per_order total_quantity num_orders)))"
      and "create_order ex k (market_order usym uside (quantity_per_order total_quantity num_orders))
             = Inl e"
      and "e \<noteq> BinanceAPIException"
      by (simp_all add: assms(7))
    from twap_try_abort [OF assms(6) this, of interval_seconds]
    show "snd (execute_twap ex symbol side (Some total_quantity) (Some num_orders)
               (Some interval_seconds)) =
          Connect # concat (map slice [0..<k]) @ [Submit req, LogError e, LogError e]"
      by (simp add: valid slice assms(7))
  qed
qed

theorem twap_pause_only_after_success_witness:
  "validate_symbol ''BTCUSDT'' = Inr ''BTCUSDT'' \<and> validate_side ''buy'' = Inr ''BUY'' \<and>
   (0::rat) < 3 \<and> (1::int) \<le> 3 \<and> (1::int) \<le> 5 \<and>
   connect rejecting_second_order = None \<and>
   create_order rejecting_second_order 0 (market_order ''BTCUSDT'' ''BUY'' 1)
     = Inr [(''side'', ''BUY'')] \<and>
   create_order rejecting_second_order 1 (market_order ''BTCUSDT'' ''BUY'' 1)
     = Inl BinanceAPIException \<and>
   create_order rejecting_second_order 2 (market_order ''BTCUSDT'' ''BUY'' 1)
     = Inr [(''side'', ''BUY'')] \<and>
   snd (execute_twap rejecting_second_order ''BTCUSDT'' ''buy'' (Some 3) (Some 3) (Some 5)) =
     [Connect, Submit (market_order ''BTCUSDT'' ''BUY'' 1), Sleep 5,
      Submit (market_order ''BTCUSDT'' ''BUY'' 1), LogError BinanceAPIException,
      Submit (market_order ''BTCUSDT'' ''BUY'' 1)]"
proof -
  have ex: "connect rejecting_second_order = None"
    by (simp add: rejecting_second_order_def scripted_def)
  have tol: "\<forall>j < nat 3. tolerated (create_order rejecting_second_order j
                (market_order ''BTCUSDT'' ''BUY'' (quantity_per_order 3 3)))"
    by (simp add: rejecting_second_order_def scripted_def)
  from twap_pause_only_after_success [OF validate_symbol_BTCUSDT validate_side_buy _ _ _ ex
      refl refl, of 3 3 5, THEN conjunct1] tol
  have "snd (execute_twap rejecting_second_order ''BTCUSDT'' ''buy'' (Some 3) (Some 3) (Some 5)) =
     [Connect, Submit (market_order ''BTCUSDT'' ''BUY'' 1), Sleep 5,
      Submit (market_order ''BTCUSDT'' ''BUY'' 1), LogError BinanceAPIException,
      Submit (market_order ''BTCUSDT'' ''BUY'' 1)]"
    by (simp add: rejecting_second_order_def scripted_def upt_rec quantity_per_order_thirds)
  then show ?thesis
    by (simp add: validate_symbol_BTCUSDT validate_side_buy)
       (simp add: rejecting_second_order_def scripted_def market_order_def
          quantity_per_order_thirds)
qed

text \<open>
  C10: for every side value other than the string BUY (a lowercase buy, any other
  string, a value that is no string at all) \<open>validate_stop_limit_prices\<close> applies the
  SELL rule: it raises exactly when the stop price is above the limit price, and the
  side value alone never makes it raise.
\<close>

theorem validate_stop_limit_prices_other_side:
  "side \<noteq> PyStr ''BUY'' \<Longrightarrow>
     (validate_stop_limit_prices stop_price limit_price side = Inl ValidationError
        \<longleftrightarrow> stop_price > limit_price) \<and>
     (validate_stop_limit_prices stop_price limit_price side = Inr ()
        \<longleftrightarrow> stop_price \<le> limit_price) \<and>
     validate_stop_limit_prices stop_price limit_price side =
       validate_stop_limit_prices stop_price limit_price (PyStr ''SELL'')"
  by (auto simp: validate_stop_limit_prices_def)

theorem validate_stop_limit_prices_other_side_witness:
  "PyStr ''buy'' \<noteq> PyStr ''BUY'' \<and>
   validate_stop_limit_prices 99 100 (PyStr ''buy'') = Inr () \<and>
   validate_stop_limit_prices 100 99 (PyStr ''buy'') = Inl ValidationError \<and>
   validate_stop_limit_prices 100 99 PyNone = Inl ValidationError"
  using validate_stop_limit_prices_other_side [of "PyStr ''buy''" 99 100]
    validate_stop_limit_prices_other_side [of "PyStr ''buy''" 100 99]
    validate_stop_limit_prices_other_side [of PyNone 100 99]
  by simp

end
